theory Spec2Isabelle
  imports Complex_Main "HOL-Library.AList" "HOL-Library.Sublist"
begin

section \<open>Data model of the analytics service (src/lib/types.tsx)\<close>

text \<open>
  The interfaces \<open>User\<close>, \<open>Post\<close>, \<open>Comment\<close>, \<open>UserWithStats\<close>, \<open>PostWithStats\<close> and
  \<open>CacheData\<close>. Every field keeps its name, prefixed by the interface where the same field
  name occurs in several interfaces (\<open>id\<close>, \<open>userId\<close>, ...). The derived interfaces extend
  the base ones, as in the source.
\<close>

record User =
  user_id :: string
  user_name :: string
  user_email :: string

record Post =
  post_id :: string
  post_userId :: string
  post_title :: string
  post_content :: string
  post_timestamp :: string

record Comment =
  comment_id :: string
  comment_postId :: string
  comment_userId :: string
  comment_content :: string
  comment_timestamp :: string

record UserWithStats = User +
  postCount :: nat

record PostWithStats = Post +
  commentCount :: nat
  userName :: "string option"

record RawData =
  users :: "User list"
  posts :: "Post list"
  comments :: "Comment list"

record Computed =
  topUsers :: "UserWithStats list"
  latestPosts :: "PostWithStats list"
  popularPosts :: "PostWithStats list"

record CacheData =
  rawData :: RawData
  computed :: Computed
  lastFetched :: int

section \<open>JavaScript library operations used by the service\<close>

text \<open>
  A \<open>Map<string, number>\<close> is an association list in insertion order: \<open>Map.set\<close> on a key
  already present keeps its position, on a new key appends, which is \<open>AList.update\<close>;
  \<open>m.get(k) || 0\<close> is \<open>getOr0\<close>; \<open>Array.from(m.values())\<close> is \<open>map snd\<close>.
\<close>

type_synonym counts = "(string \<times> nat) list"

definition getOr0 :: "counts \<Rightarrow> string \<Rightarrow> nat" where
  "getOr0 m k = (case map_of m k of None \<Rightarrow> 0 | Some n \<Rightarrow> n)"

text \<open>
  The counting loop that \<open>computeTopUsers\<close>, \<open>computeLatestPosts\<close> and
  \<open>computePopularPosts\<close> each run over the keys of a collection:
  \<open>m.set(k, (m.get(k) || 0) + 1)\<close>.
\<close>

definition countStep :: "string \<Rightarrow> counts \<Rightarrow> counts" where
  "countStep k m = AList.update k (getOr0 m k + 1) m"

definition countKeys :: "string list \<Rightarrow> counts" where
  "countKeys ks = fold countStep ks []"

text \<open>
  \<open>Array.prototype.sort(cmp)\<close>: ECMAScript (2019 and later) requires a stable sort; with a
  consistent comparator the result is ordered so that \<open>cmp a b \<le> 0\<close> for \<open>a\<close> before
  \<open>b\<close>. The model is the stable insertion sort: an element is placed in front of the first
  element it does not have to follow.
\<close>

fun place :: "('a \<Rightarrow> 'a \<Rightarrow> 'b::{zero,linorder}) \<Rightarrow> 'a \<Rightarrow> 'a list \<Rightarrow> 'a list" where
  "place cmp x [] = [x]"
| "place cmp x (y # ys) = (if cmp x y \<le> 0 then x # y # ys else y # place cmp x ys)"

definition arraySort :: "('a \<Rightarrow> 'a \<Rightarrow> 'b::{zero,linorder}) \<Rightarrow> 'a list \<Rightarrow> 'a list" where
  "arraySort cmp xs = foldr (place cmp) xs []"

text \<open>\<open>xs.slice(0, n)\<close>: a negative \<open>n\<close> counts from the end of the array.\<close>

definition slice0 :: "int \<Rightarrow> 'a list \<Rightarrow> 'a list" where
  "slice0 n xs = (if n < 0 then take (nat (int (length xs) + n)) xs else take (nat n) xs)"

section \<open>Aggregation of the snapshot (src/services/data-servise.tsx)\<close>

definition withPostCount :: "User \<Rightarrow> nat \<Rightarrow> UserWithStats" where
  "withPostCount u n =
     \<lparr>user_id = user_id u, user_name = user_name u, user_email = user_email u, postCount = n\<rparr>"

definition withStats :: "Post \<Rightarrow> nat \<Rightarrow> string option \<Rightarrow> PostWithStats" where
  "withStats p n un =
     \<lparr>post_id = post_id p, post_userId = post_userId p, post_title = post_title p,
      post_content = post_content p, post_timestamp = post_timestamp p,
      commentCount = n, userName = un\<rparr>"

text \<open>The array \<open>usersWithCounts\<close> of \<open>computeTopUsers\<close>, in the order of the snapshot.\<close>

definition usersWithCounts :: "RawData \<Rightarrow> UserWithStats list" where
  "usersWithCounts raw =
     (let userPostCounts = countKeys (map post_userId (posts raw))
      in map (\<lambda>user. withPostCount user (getOr0 userPostCounts (user_id user))) (users raw))"

definition byPostCountDesc :: "UserWithStats \<Rightarrow> UserWithStats \<Rightarrow> int" where
  "byPostCountDesc a b = int (postCount b) - int (postCount a)"

definition computeTopUsers :: "CacheData \<Rightarrow> CacheData" where
  "computeTopUsers c =
     c\<lparr>computed := (computed c)
         \<lparr>topUsers := slice0 5 (arraySort byPostCountDesc (usersWithCounts (rawData c)))\<rparr>\<rparr>"

text \<open>
  \<open>userMap\<close>: \<open>forEach(user => userMap.set(user.id, user))\<close>, so a later user with the same
  id replaces an earlier one; \<open>userMap.get(id)?.name\<close> is the name of the user stored.
\<close>

definition userMap :: "User list \<Rightarrow> (string \<times> User) list" where
  "userMap us = fold (\<lambda>user m. AList.update (user_id user) user m) us []"

definition nameOf :: "(string \<times> User) list \<Rightarrow> string \<Rightarrow> string option" where
  "nameOf m k = map_option user_name (map_of m k)"

text \<open>
  \<open>computeLatestPosts\<close> orders by \<open>new Date(timestamp).getTime()\<close>; parsing a date string
  is the JavaScript library's work and is taken as the parameter \<open>tm\<close>, which gives a time
  for every timestamp. A timestamp that does not parse (the comparator is then \<open>NaN\<close> and
  the order of the result is left to the implementation) is not modelled.
\<close>

definition byTimeDesc :: "(string \<Rightarrow> int) \<Rightarrow> Post \<Rightarrow> Post \<Rightarrow> int" where
  "byTimeDesc tm a b = tm (post_timestamp b) - tm (post_timestamp a)"

definition computeLatestPosts :: "(string \<Rightarrow> int) \<Rightarrow> CacheData \<Rightarrow> CacheData" where
  "computeLatestPosts tm c =
     (let um = userMap (users (rawData c));
          postCommentCounts = countKeys (map comment_postId (comments (rawData c)))
      in c\<lparr>computed := (computed c)
           \<lparr>latestPosts :=
              map (\<lambda>post. withStats post (getOr0 postCommentCounts (post_id post))
                                     (nameOf um (post_userId post)))
                  (slice0 5 (arraySort (byTimeDesc tm) (posts (rawData c))))\<rparr>\<rparr>)"

text \<open>The loop \<open>for (const count of countsArray) if (count > max) max = count\<close>, from 0.\<close>

definition maxCount :: "nat list \<Rightarrow> nat" where
  "maxCount countsArray = fold (\<lambda>count m. if count > m then count else m) countsArray 0"

definition computePopularPosts :: "CacheData \<Rightarrow> CacheData" where
  "computePopularPosts c =
     (let um = userMap (users (rawData c));
          postCommentCounts = countKeys (map comment_postId (comments (rawData c)));
          maxCommentCount = maxCount (map snd postCommentCounts)
      in c\<lparr>computed := (computed c)
           \<lparr>popularPosts :=
              map (\<lambda>post. withStats post (getOr0 postCommentCounts (post_id post))
                                     (nameOf um (post_userId post)))
                  (filter (\<lambda>post. getOr0 postCommentCounts (post_id post) = maxCommentCount)
                          (posts (rawData c)))\<rparr>\<rparr>)"

section \<open>The refresh path of the service (src/services/data-servise.tsx)\<close>

text \<open>
  \<open>fetchAllData\<close> either throws or resolves to the three arrays. The declared types say
  arrays; \<open>performRefresh\<close> itself allows for a missing one (\<open>users || []\<close>), so each is
  optional here.
\<close>

datatype fetchError = FetchError string

record FetchedData =
  fetched_users :: "User list option"
  fetched_posts :: "Post list option"
  fetched_comments :: "Comment list option"

definition orEmpty :: "'a list option \<Rightarrow> 'a list" where
  "orEmpty v = (case v of None \<Rightarrow> [] | Some xs \<Rightarrow> xs)"

definition CACHE_DURATION :: int where
  "CACHE_DURATION = 10 * 1000"

definition getCacheExpiry :: "CacheData \<Rightarrow> int" where
  "getCacheExpiry c = lastFetched c + CACHE_DURATION"

definition isCacheFresh :: "int \<Rightarrow> CacheData \<Rightarrow> bool" where
  "isCacheFresh now c = (lastFetched c > 0 \<and> now < getCacheExpiry c)"

text \<open>
  \<open>performRefresh\<close> from the point where \<open>await this.apiClient.fetchAllData()\<close> resumes:
  \<open>fetched\<close> is what the fetch threw or returned, \<open>finished\<close> is \<open>Date.now()\<close> then. A throw
  leaves the \<open>try\<close> block before its first assignment and is rethrown.
\<close>

definition performRefresh ::
  "(string \<Rightarrow> int) \<Rightarrow> fetchError + FetchedData \<Rightarrow> int \<Rightarrow> CacheData \<Rightarrow> CacheData \<times> (fetchError + unit)"
where
  "performRefresh tm fetched finished c =
     (case fetched of
        Inl e \<Rightarrow> (c, Inl e)
      | Inr d \<Rightarrow>
          (let c1 = c\<lparr>rawData := \<lparr>users = orEmpty (fetched_users d),
                                  posts = orEmpty (fetched_posts d),
                                  comments = orEmpty (fetched_comments d)\<rparr>\<rparr>;
               c2 = computeTopUsers c1;
               c3 = computeLatestPosts tm c2;
               c4 = computePopularPosts c3
           in (c4\<lparr>lastFetched := finished\<rparr>, Inr ())))"

text \<open>
  The service object, and the program around it. JavaScript runs one piece of code at a
  time and switches only at an \<open>await\<close>, so the refresh path has three atomic pieces:
  \<^item> \<open>refreshData\<close> up to its \<open>await\<close>, which includes \<open>performRefresh\<close> up to the call of
    \<open>fetchAllData\<close> (event \<open>Call\<close>);
  \<^item> the rest of \<open>performRefresh\<close>, run when the fetch settles; it settles the promise
    stored in \<open>refreshPromise\<close> (event \<open>Settle\<close>);
  \<^item> the \<open>finally\<close> block of the call that started the refresh (event \<open>Resume\<close>).
  A promise is named by a number. \<open>outcome\<close> is \<open>None\<close> while a promise is pending;
  \<open>fetching\<close> lists the promises whose fetch is in flight, \<open>resuming\<close> those whose starter
  has not yet run its \<open>finally\<close>; \<open>fetchAllCalls\<close> counts the calls of \<open>fetchAllData\<close>.
  Events may interleave in any order.
\<close>

type_synonym promise = nat

record DataService =
  cache :: CacheData
  refreshPromise :: "promise option"

record World =
  service :: DataService
  outcome :: "promise \<Rightarrow> (fetchError + unit) option"
  fetching :: "promise list"
  resuming :: "promise list"
  fetchAllCalls :: nat

definition newService :: DataService where
  "newService =
     \<lparr>cache = \<lparr>rawData = \<lparr>users = [], posts = [], comments = []\<rparr>,
               computed = \<lparr>topUsers = [], latestPosts = [], popularPosts = []\<rparr>,
               lastFetched = 0\<rparr>,
      refreshPromise = None\<rparr>"

definition initialWorld :: World where
  "initialWorld =
     \<lparr>service = newService, outcome = (\<lambda>p. None), fetching = [], resuming = [],
      fetchAllCalls = 0\<rparr>"

text \<open>
  What a caller of \<open>refreshData\<close> holds when the call returns its promise: one already
  resolved (\<open>Fresh\<close>, the cache hit), the promise of the refresh in flight (\<open>Joined\<close>), or
  the promise of the refresh this call has started (\<open>Started\<close>).
\<close>

datatype callResult = Fresh | Joined promise | Started promise

definition refreshData :: "bool \<Rightarrow> int \<Rightarrow> World \<Rightarrow> World \<times> callResult" where
  "refreshData force now w =
     (if \<not> force \<and> isCacheFresh now (cache (service w)) then (w, Fresh)
      else case refreshPromise (service w) of
             Some p \<Rightarrow> (w, Joined p)
           | None \<Rightarrow>
               (let p = fetchAllCalls w
                in (w\<lparr>service := (service w)\<lparr>refreshPromise := Some p\<rparr>,
                      fetching := p # fetching w,
                      fetchAllCalls := Suc (fetchAllCalls w)\<rparr>,
                    Started p)))"

definition fetchSettles ::
  "(string \<Rightarrow> int) \<Rightarrow> promise \<Rightarrow> fetchError + FetchedData \<Rightarrow> int \<Rightarrow> World \<Rightarrow> World"
where
  "fetchSettles tm p fetched finished w =
     (if p \<in> set (fetching w)
      then (let (c, r) = performRefresh tm fetched finished (cache (service w))
            in w\<lparr>service := (service w)\<lparr>cache := c\<rparr>,
                 outcome := (outcome w)(p \<mapsto> r),
                 fetching := removeAll p (fetching w),
                 resuming := p # resuming w\<rparr>)
      else w)"

definition resumeFinally :: "promise \<Rightarrow> World \<Rightarrow> World" where
  "resumeFinally p w =
     (if p \<in> set (resuming w)
      then w\<lparr>service := (service w)\<lparr>refreshPromise := None\<rparr>,
             resuming := removeAll p (resuming w)\<rparr>
      else w)"

datatype event =
    Call bool int
  | Settle promise "fetchError + FetchedData" int
  | Resume promise

fun step :: "(string \<Rightarrow> int) \<Rightarrow> event \<Rightarrow> World \<Rightarrow> World" where
  "step tm (Call force now) w = fst (refreshData force now w)"
| "step tm (Settle p fetched finished) w = fetchSettles tm p fetched finished w"
| "step tm (Resume p) w = resumeFinally p w"

definition run :: "(string \<Rightarrow> int) \<Rightarrow> event list \<Rightarrow> World \<Rightarrow> World" where
  "run tm evs w = fold (step tm) evs w"

text \<open>
  What the promise returned by \<open>refreshData\<close> has settled to in a later world: the starter's
  promise settles after its \<open>finally\<close> block, with the outcome of the refresh.
\<close>

definition observe :: "callResult \<Rightarrow> World \<Rightarrow> (fetchError + unit) option" where
  "observe r w =
     (case r of
        Fresh \<Rightarrow> Some (Inr ())
      | Joined p \<Rightarrow> outcome w p
      | Started p \<Rightarrow> (if p \<in> set (resuming w) then None else outcome w p))"

text \<open>
  The accessors: \<open>await this.refreshData(); return this.cache.computed.<view>\<close>. The call
  is \<open>refreshData False\<close>; when the awaited promise has settled, a rejection is thrown on to
  the accessor's caller, and otherwise the view is read from the cache as it is then.
\<close>

definition accessorResult ::
  "(Computed \<Rightarrow> 'a) \<Rightarrow> callResult \<Rightarrow> World \<Rightarrow> (fetchError + 'a) option"
where
  "accessorResult view r w =
     (case observe r w of
        None \<Rightarrow> None
      | Some (Inl e) \<Rightarrow> Some (Inl e)
      | Some (Inr u) \<Rightarrow> Some (Inr (view (computed (cache (service w))))))"

definition getTopUsers :: "callResult \<Rightarrow> World \<Rightarrow> (fetchError + UserWithStats list) option" where
  "getTopUsers = accessorResult topUsers"

definition getLatestPosts :: "callResult \<Rightarrow> World \<Rightarrow> (fetchError + PostWithStats list) option" where
  "getLatestPosts = accessorResult latestPosts"

definition getPopularPosts :: "callResult \<Rightarrow> World \<Rightarrow> (fetchError + PostWithStats list) option" where
  "getPopularPosts = accessorResult popularPosts"

text \<open>
  The popular posts in the words of the specification: the comment count of a post is the
  number of comments that name it, and the popular posts are the posts whose comment count
  is the largest comment count of any post.
\<close>

definition commentsOn :: "RawData \<Rightarrow> Post \<Rightarrow> nat" where
  "commentsOn raw p = length (filter (\<lambda>cm. comment_postId cm = post_id p) (comments raw))"

definition tiedForMostComments :: "RawData \<Rightarrow> Post list" where
  "tiedForMostComments raw =
     filter (\<lambda>p. commentsOn raw p = Max (commentsOn raw ` set (posts raw))) (posts raw)"

section \<open>Engagement metrics (src/lib/types.tsx, the request handlers)\<close>

text \<open>
  A JavaScript number is an IEEE 754 double, or one of \<open>NaN\<close>, \<open>Infinity\<close> and
  \<open>-Infinity\<close>. Counts are natural numbers, as the \<open>_count\<close> of a relation is, and are
  taken to be below \<open>2 ^ 53\<close>, so that they and their sums are doubles. The rate of a post
  is computed in the arithmetic of doubles, modelled below. In the comparison handler a
  number is a real number or one of the three values that are not, and its quotients are
  exact.
\<close>

datatype number = Num real | NaN | PosInfinity | NegInfinity

definition divide :: "real \<Rightarrow> real \<Rightarrow> number" where
  "divide x y =
     (if y \<noteq> 0 then Num (x / y)
      else if x = 0 then NaN
      else if 0 < x then PosInfinity else NegInfinity)"

text \<open>
  \<open>parseFloat(x.toFixed(2))\<close>: the multiple of 1/100 nearest to \<open>x\<close>, the one of larger
  magnitude when two are equally near.
\<close>

definition toFixed2 :: "real \<Rightarrow> real" where
  "toFixed2 x =
     (if x < 0 then - (of_int \<lfloor>(- x) * 100 + 1 / 2\<rfloor> / 100)
      else of_int \<lfloor>x * 100 + 1 / 2\<rfloor> / 100)"

fun toFixed2Number :: "number \<Rightarrow> number" where
  "toFixed2Number (Num x) = Num (toFixed2 x)"
| "toFixed2Number NaN = NaN"
| "toFixed2Number PosInfinity = PosInfinity"
| "toFixed2Number NegInfinity = NegInfinity"

text \<open>
  Doubles. A finite double that is not negative is \<open>mantissa * 2 ^ exponent\<close>, with a
  mantissa below \<open>2 ^ 53\<close> (only such doubles occur in the rate of a post).
  \<open>roundTo53 n d\<close> is the double nearest to the quotient \<open>n / d\<close> of two positive
  integers, the one with the even mantissa when two are equally near: the quotient is
  scaled by a power of 2 to lie between \<open>2 ^ 52\<close> and \<open>2 ^ 53\<close> and rounded to an
  integer. Underflow and overflow cannot occur for counts below \<open>2 ^ 53\<close> and are not
  modelled.
\<close>

fun bitLength :: "nat \<Rightarrow> nat" where
  "bitLength n = (if n = 0 then 0 else Suc (bitLength (n div 2)))"

declare bitLength.simps [simp del]

definition divRoundEven :: "nat \<Rightarrow> nat \<Rightarrow> nat" where
  "divRoundEven n d =
     (let q = n div d; r = n mod d
      in if 2 * r < d then q
         else if d < 2 * r then q + 1
         else if even q then q else q + 1)"

record Float64 =
  mantissa :: nat
  exponent :: int

definition float64Value :: "Float64 \<Rightarrow> real" where
  "float64Value x =
     (if 0 \<le> exponent x then real (mantissa x) * 2 ^ nat (exponent x)
      else real (mantissa x) / 2 ^ nat (- exponent x))"

definition roundTo53 :: "nat \<Rightarrow> nat \<Rightarrow> Float64" where
  "roundTo53 n d =
     (let sh = 53 + int (bitLength d) - int (bitLength n);
          n1 = (if 0 \<le> sh then n * 2 ^ nat sh else n);
          d1 = (if 0 \<le> sh then d else d * 2 ^ nat (- sh))
      in if d1 * 2 ^ 53 \<le> n1
         then \<lparr>mantissa = divRoundEven n1 (2 * d1), exponent = 1 - sh\<rparr>
         else \<lparr>mantissa = divRoundEven n1 d1, exponent = - sh\<rparr>)"

text \<open>
  The value of an expression over counts: a finite double, \<open>NaN\<close> or \<open>Infinity\<close>.
  \<open>divCounts n d\<close> is \<open>n / d\<close> for two counts, \<open>times100 x\<close> is \<open>x * 100\<close>, and
  \<open>toFixed2Float x\<close> is \<open>parseFloat(x.toFixed(2))\<close>: \<open>toFixed\<close> rounds the exact value of
  the double, and the number parsed back is written as the decimal it prints as (for
  rates of counts below \<open>2 ^ 53\<close>, two such numbers differ exactly when their decimals do,
  and are in the order of their decimals).
\<close>

datatype float = Finite Float64 | NotANumber | Infinite

definition zero64 :: Float64 where
  "zero64 = \<lparr>mantissa = 0, exponent = 0\<rparr>"

definition divCounts :: "nat \<Rightarrow> nat \<Rightarrow> float" where
  "divCounts n d =
     (if d = 0 then (if n = 0 then NotANumber else Infinite)
      else if n = 0 then Finite zero64
      else Finite (roundTo53 n d))"

fun times100 :: "float \<Rightarrow> float" where
  "times100 (Finite x) =
     (if mantissa x = 0 then Finite zero64
      else Finite (roundTo53 (100 * mantissa x * 2 ^ nat (exponent x)) (2 ^ nat (- exponent x))))"
| "times100 NotANumber = NotANumber"
| "times100 Infinite = Infinite"

fun toFixed2Float :: "float \<Rightarrow> number" where
  "toFixed2Float (Finite x) = Num (toFixed2 (float64Value x))"
| "toFixed2Float NotANumber = NaN"
| "toFixed2Float Infinite = PosInfinity"

text \<open>
  A row of \<open>prisma.post.findMany\<close> with its \<open>_count\<close> of likes, comments, shares and
  views, and the time it was created, in milliseconds since the epoch.
\<close>

record PostRow =
  row_id :: string
  row_userId :: string
  row_createdAt :: int
  count_likes :: nat
  count_comments :: nat
  count_shares :: nat
  count_views :: nat

record PostEngagement =
  postId :: string
  totalEngagements :: nat
  em_likes :: nat
  em_comments :: nat
  em_shares :: nat
  em_views :: nat
  engagementRate :: number

text \<open>
  The body of \<open>posts.map\<close> in the handler \<open>getPopularPosts\<close>:
  \<open>views > 0 ? (totalEngagements / views) * 100 : 0\<close>, then
  \<open>parseFloat(engagementRate.toFixed(2))\<close>.
\<close>

definition engagementMetrics :: "PostRow \<Rightarrow> PostEngagement" where
  "engagementMetrics post =
     (let total = count_likes post + count_comments post + count_shares post;
          rate = (if count_views post > 0
                  then times100 (divCounts total (count_views post)) else Finite zero64)
      in \<lparr>postId = row_id post, totalEngagements = total,
          em_likes = count_likes post, em_comments = count_comments post,
          em_shares = count_shares post, em_views = count_views post,
          engagementRate = toFixed2Float rate\<rparr>)"

text \<open>
  The rate in the words of the specification: the exact quotient times 100, rounded to two
  decimal places, and 0 for a post without views.
\<close>

definition exactRate :: "PostRow \<Rightarrow> real" where
  "exactRate post =
     (if count_views post > 0
      then real (count_likes post + count_comments post + count_shares post)
             / real (count_views post) * 100
      else 0)"

definition roundedExactRate :: "PostRow \<Rightarrow> real" where
  "roundedExactRate post = toFixed2 (exactRate post)"

text \<open>A post with its \<open>engagementMetrics\<close> attached is a pair.\<close>

definition postsWithEngagement :: "PostRow list \<Rightarrow> (PostRow \<times> PostEngagement) list" where
  "postsWithEngagement rows = map (\<lambda>post. (post, engagementMetrics post)) rows"

text \<open>
  The comparator of \<open>postsWithEngagement.sort\<close>. The difference of two rates is a
  number; \<open>Array.prototype.sort\<close> reads a comparator's \<open>NaN\<close> as 0, and of any other
  result only the sign.
\<close>

fun minusNumber :: "number \<Rightarrow> number \<Rightarrow> number" where
  "minusNumber (Num x) (Num y) = Num (x - y)"
| "minusNumber NaN y = NaN"
| "minusNumber x NaN = NaN"
| "minusNumber PosInfinity PosInfinity = NaN"
| "minusNumber NegInfinity NegInfinity = NaN"
| "minusNumber PosInfinity y = PosInfinity"
| "minusNumber NegInfinity y = NegInfinity"
| "minusNumber (Num x) PosInfinity = NegInfinity"
| "minusNumber (Num x) NegInfinity = PosInfinity"

fun sortValue :: "number \<Rightarrow> real" where
  "sortValue (Num x) = x"
| "sortValue NaN = 0"
| "sortValue PosInfinity = 1"
| "sortValue NegInfinity = - 1"

definition byEngagementDesc ::
  "PostRow \<times> PostEngagement \<Rightarrow> PostRow \<times> PostEngagement \<Rightarrow> real"
where
  "byEngagementDesc a b =
     (if totalEngagements (snd b) = totalEngagements (snd a)
      then sortValue (minusNumber (engagementRate (snd b)) (engagementRate (snd a)))
      else real (totalEngagements (snd b)) - real (totalEngagements (snd a)))"

text \<open>\<open>parseInt(req.query.limit) || 10\<close>: no number, or 0, gives 10.\<close>

definition limitOr10 :: "int option \<Rightarrow> int" where
  "limitOr10 q = (case q of None \<Rightarrow> 10 | Some n \<Rightarrow> if n = 0 then 10 else n)"

text \<open>\<open>sortedPosts.slice(0, limit)\<close> of \<open>getPopularPosts\<close>, from the rows it has fetched.\<close>

definition popularPostsPage :: "int \<Rightarrow> PostRow list \<Rightarrow> (PostRow \<times> PostEngagement) list" where
  "popularPostsPage limit rows = slice0 limit (arraySort byEngagementDesc (postsWithEngagement rows))"

text \<open>
  The order the specification gives: more engagements first, then the higher rate (of two
  rates that are numbers).
\<close>

fun numAtMost :: "number \<Rightarrow> number \<Rightarrow> bool" where
  "numAtMost (Num x) (Num y) = (x \<le> y)"
| "numAtMost x y = False"

definition rankedBefore :: "PostRow \<times> PostEngagement \<Rightarrow> PostRow \<times> PostEngagement \<Rightarrow> bool" where
  "rankedBefore a b =
     (totalEngagements (snd b) < totalEngagements (snd a) \<or>
      totalEngagements (snd a) = totalEngagements (snd b) \<and>
      numAtMost (engagementRate (snd b)) (engagementRate (snd a)))"

section \<open>Dates and the time window of a request\<close>

text \<open>
  A \<open>Date\<close> is kept as the fields its setters write (year, month from 0, day of the month,
  milliseconds into the day; the local time zone is taken to be UTC); \<open>getTime\<close> is
  ECMAScript's \<open>MakeDate (MakeDay ...)\<close>,
  which carries a month outside 0..11 into the year and a day outside the month into the
  following or preceding days.
\<close>

record Date =
  fullYear :: int
  monthIndex :: int
  dateOfMonth :: int
  timeInDay :: int

definition dayFromYear :: "int \<Rightarrow> int" where
  "dayFromYear y =
     365 * (y - 1970) + (y - 1969) div 4 - (y - 1901) div 100 + (y - 1601) div 400"

definition inLeapYear :: "int \<Rightarrow> bool" where
  "inLeapYear y = (y mod 4 = 0 \<and> (y mod 100 \<noteq> 0 \<or> y mod 400 = 0))"

definition daysBeforeMonth :: "bool \<Rightarrow> int \<Rightarrow> int" where
  "daysBeforeMonth leap m =
     [0, 31, 59, 90, 120, 151, 181, 212, 243, 273, 304, 334] ! nat m
       + (if leap \<and> 2 \<le> m then 1 else 0)"

definition makeDay :: "int \<Rightarrow> int \<Rightarrow> int \<Rightarrow> int" where
  "makeDay y m d =
     (let ym = y + m div 12; mn = m mod 12
      in dayFromYear ym + daysBeforeMonth (inLeapYear ym) mn + d - 1)"

definition getTime :: "Date \<Rightarrow> int" where
  "getTime dt = makeDay (fullYear dt) (monthIndex dt) (dateOfMonth dt) * 86400000 + timeInDay dt"

definition epoch :: Date where
  "epoch = \<lparr>fullYear = 1970, monthIndex = 0, dateOfMonth = 1, timeInDay = 0\<rparr>"

text \<open>\<open>(req.query.period as TimePeriod) || dflt\<close>.\<close>

definition periodOr :: "string \<Rightarrow> string option \<Rightarrow> string" where
  "periodOr dflt q = (case q of None \<Rightarrow> dflt | Some s \<Rightarrow> if s = [] then dflt else s)"

text \<open>
  The \<open>switch (period)\<close> of \<open>getPopularPosts\<close> and of \<open>getTrendingTopics\<close>; \<open>endDate\<close> and
  the initial \<open>startDate\<close> are both \<open>new Date()\<close>, the time of the request.
\<close>

definition startDatePopular :: "string \<Rightarrow> Date \<Rightarrow> Date" where
  "startDatePopular period endDate =
     (if period = ''day'' then endDate\<lparr>dateOfMonth := dateOfMonth endDate - 1\<rparr>
      else if period = ''week'' then endDate\<lparr>dateOfMonth := dateOfMonth endDate - 7\<rparr>
      else if period = ''month'' then endDate\<lparr>monthIndex := monthIndex endDate - 1\<rparr>
      else if period = ''year'' then endDate\<lparr>fullYear := fullYear endDate - 1\<rparr>
      else if period = ''all'' then epoch
      else endDate\<lparr>dateOfMonth := dateOfMonth endDate - 7\<rparr>)"

text \<open>The \<open>switch (period)\<close> of \<open>getUserEngagementComparison\<close>.\<close>

definition startDateComparison :: "string \<Rightarrow> Date \<Rightarrow> Date" where
  "startDateComparison period endDate =
     (if period = ''day'' then endDate\<lparr>dateOfMonth := dateOfMonth endDate - 1\<rparr>
      else if period = ''week'' then endDate\<lparr>dateOfMonth := dateOfMonth endDate - 7\<rparr>
      else if period = ''month'' then endDate\<lparr>monthIndex := monthIndex endDate - 1\<rparr>
      else if period = ''year'' then endDate\<lparr>fullYear := fullYear endDate - 1\<rparr>
      else endDate\<lparr>monthIndex := monthIndex endDate - 1\<rparr>)"

section \<open>The comparison of one user with the platform (getUserEngagementComparison)\<close>

text \<open>
  The database is the list of its post rows and the list of its users (id and username).
  \<open>findMany\<close> with a \<open>createdAt\<close> range, and a \<open>userId\<close> if given, keeps the rows that
  match; \<open>findUnique\<close> finds the row of an id.
\<close>

definition inWindow :: "Date \<Rightarrow> Date \<Rightarrow> PostRow \<Rightarrow> bool" where
  "inWindow startDate endDate post =
     (getTime startDate \<le> row_createdAt post \<and> row_createdAt post \<le> getTime endDate)"

definition sumEngagements :: "PostRow list \<Rightarrow> nat" where
  "sumEngagements rows =
     fold (\<lambda>post total. total + (count_likes post + count_comments post + count_shares post)) rows 0"

definition sumViews :: "PostRow list \<Rightarrow> nat" where
  "sumViews rows = fold (\<lambda>post total. total + count_views post) rows 0"

definition rateOf :: "nat \<Rightarrow> nat \<Rightarrow> real" where
  "rateOf engagements views = (if views > 0 then (real engagements / real views) * 100 else 0)"

text \<open>
  The loop that fills \<open>userPostsMap\<close>: the author of each post is looked up again by the
  post's id, a post without author is skipped, and the author's sums grow in place.
\<close>

definition authorOf :: "PostRow list \<Rightarrow> string \<Rightarrow> string option" where
  "authorOf db i = map_option row_userId (find (\<lambda>r. row_id r = i) db)"

definition groupStep ::
  "PostRow list \<Rightarrow> PostRow \<Rightarrow> (string \<times> nat \<times> nat) list \<Rightarrow> (string \<times> nat \<times> nat) list"
where
  "groupStep db post m =
     (case authorOf db (row_id post) of
        None \<Rightarrow> m
      | Some postUserId \<Rightarrow>
          if postUserId = [] then m
          else (let postEngagements = count_likes post + count_comments post + count_shares post;
                    postViews = count_views post
                in case map_of m postUserId of
                     Some (e, v) \<Rightarrow> AList.update postUserId (e + postEngagements, v + postViews) m
                   | None \<Rightarrow> AList.update postUserId (postEngagements, postViews) m))"

definition userPostsMap :: "PostRow list \<Rightarrow> PostRow list \<Rightarrow> (string \<times> nat \<times> nat) list" where
  "userPostsMap db allPosts = fold (groupStep db) allPosts []"

definition allUserEngagementRates :: "PostRow list \<Rightarrow> PostRow list \<Rightarrow> real list" where
  "allUserEngagementRates db allPosts =
     arraySort (\<lambda>a b. a - b) (map (\<lambda>(u, e, v). rateOf e v) (userPostsMap db allPosts))"

text \<open>\<open>Array.prototype.findIndex\<close>; \<open>None\<close> is its \<open>-1\<close>.\<close>

fun findIndex :: "('a \<Rightarrow> bool) \<Rightarrow> 'a list \<Rightarrow> nat option" where
  "findIndex P [] = None"
| "findIndex P (x # xs) = (if P x then Some 0 else map_option Suc (findIndex P xs))"

definition percentileOf :: "real list \<Rightarrow> real \<Rightarrow> real" where
  "percentileOf rates userEngagementRate =
     (if length rates > 0
      then (case findIndex (\<lambda>rate. rate \<ge> userEngagementRate) rates of
              Some position \<Rightarrow> (real position / real (length rates)) * 100
            | None \<Rightarrow> 100)
      else 0)"

record UserMetrics =
  totalPosts :: nat
  userTotalEngagements :: nat
  userRate :: real
  percentileRank :: real

record PlatformAverages =
  platformRate :: real
  comparison :: number

record ComparisonBody =
  body_userId :: string
  body_username :: string
  body_period :: string
  dateFrom :: Date
  dateTo :: Date
  userMetrics :: UserMetrics
  platformAverages :: PlatformAverages

datatype response = Status404 | Status200 ComparisonBody

text \<open>The two \<open>findMany\<close> queries of the handler: the user's posts, and all posts, of the window.\<close>

definition userPostsIn :: "Date \<Rightarrow> Date \<Rightarrow> string \<Rightarrow> PostRow list \<Rightarrow> PostRow list" where
  "userPostsIn startDate endDate userId db =
     filter (\<lambda>r. row_userId r = userId \<and> inWindow startDate endDate r) db"

definition allPostsIn :: "Date \<Rightarrow> Date \<Rightarrow> PostRow list \<Rightarrow> PostRow list" where
  "allPostsIn startDate endDate db = filter (inWindow startDate endDate) db"

text \<open>
  The handler, from the time of the request, the user table (id and username), the post
  rows, the \<open>userId\<close> of the route and the \<open>period\<close> of the query string. In the response,
  \<open>userRate\<close> is \<open>userMetrics.engagementRate\<close> and \<open>platformRate\<close> is
  \<open>platformAverages.engagementRate\<close>.
\<close>

definition getUserEngagementComparison ::
  "Date \<Rightarrow> (string \<times> string) list \<Rightarrow> PostRow list \<Rightarrow> string \<Rightarrow> string option \<Rightarrow> response"
where
  "getUserEngagementComparison now userTable db userId periodQuery =
     (let period = periodOr ''month'' periodQuery;
          endDate = now;
          startDate = startDateComparison period endDate
      in case map_of userTable userId of
           None \<Rightarrow> Status404
         | Some username \<Rightarrow>
             (let userPosts = userPostsIn startDate endDate userId db;
                  userEngagementRate = rateOf (sumEngagements userPosts) (sumViews userPosts);
                  allPosts = allPostsIn startDate endDate db;
                  platformEngagementRate = rateOf (sumEngagements allPosts) (sumViews allPosts);
                  rank = percentileOf (allUserEngagementRates db allPosts) userEngagementRate
              in Status200
                   \<lparr>body_userId = userId, body_username = username, body_period = period,
                    dateFrom = startDate, dateTo = endDate,
                    userMetrics =
                      \<lparr>totalPosts = length userPosts,
                       userTotalEngagements = sumEngagements userPosts,
                       userRate = toFixed2 userEngagementRate,
                       percentileRank = toFixed2 rank\<rparr>,
                    platformAverages =
                      \<lparr>platformRate = toFixed2 platformEngagementRate,
                       comparison =
                         toFixed2Number
                           (case divide userEngagementRate platformEngagementRate of
                              Num q \<Rightarrow> Num (q * 100 - 100)
                            | other \<Rightarrow> other)\<rparr>\<rparr>))"

definition bodyOf :: "response \<Rightarrow> ComparisonBody option" where
  "bodyOf r = (case r of Status404 \<Rightarrow> None | Status200 b \<Rightarrow> Some b)"

text \<open>The sums that \<open>userPostsMap\<close> holds for an author, (0, 0) for an author without entry.\<close>

definition sumsOf :: "(string \<times> nat \<times> nat) list \<Rightarrow> string \<Rightarrow> nat \<times> nat" where
  "sumsOf m u = (case map_of m u of None \<Rightarrow> (0, 0) | Some ev \<Rightarrow> ev)"

section \<open>The handler of the popular posts (getPopularPosts in src/lib/types.tsx)\<close>

text \<open>
  The database is the list of its post rows, in the order in which it returns them to a
  query without \<open>orderBy\<close>. \<open>findMany\<close> with \<open>take: n\<close> returns the first \<open>n\<close> rows that
  match, and for a negative \<open>n\<close> the last \<open>-n\<close>. The \<open>where\<close> clause asks for the window
  and, if the query string gives a \<open>userId\<close> that is not empty, for that author.
\<close>

definition findManyTake :: "int \<Rightarrow> 'a list \<Rightarrow> 'a list" where
  "findManyTake n rows =
     (if n < 0 then drop (length rows - nat (- n)) rows else take (nat n) rows)"

definition popularWhere :: "Date \<Rightarrow> Date \<Rightarrow> string option \<Rightarrow> PostRow \<Rightarrow> bool" where
  "popularWhere startDate endDate userId post =
     (inWindow startDate endDate post \<and>
      (case userId of None \<Rightarrow> True | Some u \<Rightarrow> u = [] \<or> row_userId post = u))"

text \<open>The posts of the window that the request asks about.\<close>

definition matchingPosts :: "Date \<Rightarrow> PostRow list \<Rightarrow> string option \<Rightarrow> string option \<Rightarrow> PostRow list" where
  "matchingPosts now db userId periodQuery =
     (let endDate = now;
          startDate = startDatePopular (periodOr ''week'' periodQuery) endDate
      in filter (popularWhere startDate endDate userId) db)"

text \<open>\<open>posts\<close>: the rows of \<open>findMany({where, take: limit * 3})\<close>.\<close>

definition fetchedPosts ::
  "Date \<Rightarrow> PostRow list \<Rightarrow> string option \<Rightarrow> string option \<Rightarrow> int \<Rightarrow> PostRow list"
where
  "fetchedPosts now db userId periodQuery limit =
     findManyTake (limit * 3) (matchingPosts now db userId periodQuery)"

text \<open>
  \<open>popularPosts\<close>, the \<open>posts\<close> of the response, from the time of the request, the
  database and the \<open>userId\<close>, \<open>period\<close> and \<open>limit\<close> of the query string.
\<close>

definition popularPostsHandler ::
  "Date \<Rightarrow> PostRow list \<Rightarrow> string option \<Rightarrow> string option \<Rightarrow> int option
     \<Rightarrow> (PostRow \<times> PostEngagement) list"
where
  "popularPostsHandler now db userId periodQuery limitQuery =
     (let limit = limitOr10 limitQuery
      in popularPostsPage limit (fetchedPosts now db userId periodQuery limit))"

section \<open>Invariant and scenarios of the refresh path\<close>

text \<open>
  At most one refresh is under way, and \<open>refreshPromise\<close> holds its promise from the call
  that starts it until the \<open>finally\<close> block of that call.
\<close>

definition singleFlight :: "World \<Rightarrow> bool" where
  "singleFlight w =
     (case refreshPromise (service w) of
        None \<Rightarrow> fetching w = [] \<and> resuming w = []
      | Some p \<Rightarrow> fetching w = [p] \<and> resuming w = [] \<or> fetching w = [] \<and> resuming w = [p])"

text \<open>
  An accessor is called at \<open>now\<close>, the refresh this call starts (its promise is the number
  \<open>fetchAllCalls w\<close>) fails with \<open>e\<close>, and the \<open>finally\<close> block of the call runs.
\<close>

definition afterFailedRefresh :: "(string \<Rightarrow> int) \<Rightarrow> int \<Rightarrow> fetchError \<Rightarrow> int \<Rightarrow> World \<Rightarrow> World" where
  "afterFailedRefresh tm now e finished w =
     run tm [Call False now, Settle (fetchAllCalls w) (Inl e) finished, Resume (fetchAllCalls w)] w"

section \<open>Example data\<close>

definition mkUser :: "string \<Rightarrow> string \<Rightarrow> User" where
  "mkUser i n = \<lparr>user_id = i, user_name = n, user_email = []\<rparr>"

definition mkPost :: "string \<Rightarrow> string \<Rightarrow> Post" where
  "mkPost i u =
     \<lparr>post_id = i, post_userId = u, post_title = [], post_content = [], post_timestamp = []\<rparr>"

definition mkComment :: "string \<Rightarrow> string \<Rightarrow> Comment" where
  "mkComment i p =
     \<lparr>comment_id = i, comment_postId = p, comment_userId = [], comment_content = [],
      comment_timestamp = []\<rparr>"

definition cacheOf :: "RawData \<Rightarrow> CacheData" where
  "cacheOf raw =
     \<lparr>rawData = raw, computed = \<lparr>topUsers = [], latestPosts = [], popularPosts = []\<rparr>,
      lastFetched = 0\<rparr>"

text \<open>One post without comments, and one comment on a post that is not in the snapshot.\<close>

definition orphanSnapshot :: RawData where
  "orphanSnapshot =
     \<lparr>users = [], posts = [mkPost ''p1'' ''u1''], comments = [mkComment ''c1'' ''gone'']\<rparr>"

text \<open>One post with two comments, and one comment on a post that is not in the snapshot.\<close>

definition outnumberedOrphan :: RawData where
  "outnumberedOrphan =
     \<lparr>users = [], posts = [mkPost ''p1'' ''u1''],
      comments = [mkComment ''c1'' ''p1'', mkComment ''c2'' ''p1'', mkComment ''c3'' ''gone'']\<rparr>"

text \<open>Three posts with 1, 2 and 2 comments.\<close>

definition tiedSnapshot :: RawData where
  "tiedSnapshot =
     \<lparr>users = [mkUser ''u1'' ''Ann''],
      posts = [mkPost ''p1'' ''u1'', mkPost ''p2'' ''u1'', mkPost ''p3'' ''u2''],
      comments = [mkComment ''c1'' ''p1'', mkComment ''c2'' ''p2'', mkComment ''c3'' ''p3'',
                  mkComment ''c4'' ''p3'', mkComment ''c5'' ''p2'']\<rparr>"

definition noDates :: "string \<Rightarrow> int" where
  "noDates s = 0"

definition exampleData :: FetchedData where
  "exampleData =
     \<lparr>fetched_users = Some [mkUser ''u1'' ''Ann''],
      fetched_posts = Some [mkPost ''p1'' ''u1''],
      fetched_comments = Some [mkComment ''c1'' ''p1'']\<rparr>"

text \<open>A first refresh, started at time 1000, has succeeded at time 1200.\<close>

definition populatedWorld :: World where
  "populatedWorld =
     run noDates [Call False 1000, Settle 0 (Inr exampleData) 1200, Resume 0] initialWorld"

text \<open>A forced refresh, started at time 5000 while the cache is still fresh, is in flight.\<close>

definition busyFreshWorld :: World where
  "busyFreshWorld = run noDates [Call True 5000] populatedWorld"

definition mkRow :: "string \<Rightarrow> string \<Rightarrow> int \<Rightarrow> nat \<Rightarrow> nat \<Rightarrow> nat \<Rightarrow> nat \<Rightarrow> PostRow" where
  "mkRow i u t l c s v =
     \<lparr>row_id = i, row_userId = u, row_createdAt = t, count_likes = l, count_comments = c,
      count_shares = s, count_views = v\<rparr>"

text \<open>
  Posts with 1, 5 and 1 engagements and rates 10, 50 and 33.33, and a fourth with 9
  engagements; all were created at time 0.
\<close>

definition rowA :: PostRow where
  "rowA = mkRow ''a'' ''u1'' 0 1 0 0 10"

definition rowB :: PostRow where
  "rowB = mkRow ''b'' ''u2'' 0 5 0 0 10"

definition rowC :: PostRow where
  "rowC = mkRow ''c'' ''u2'' 0 1 0 0 3"

definition rowD :: PostRow where
  "rowD = mkRow ''d'' ''u3'' 0 9 0 0 10"

definition threeRows :: "PostRow list" where
  "threeRows = [rowA, rowB, rowC]"

definition fourRows :: "PostRow list" where
  "fourRows = threeRows @ [rowD]"

text \<open>A post with 3 likes and no views.\<close>

definition unseenRow :: PostRow where
  "unseenRow = mkRow ''b'' ''u2'' 1710000000000 3 0 0 0"

text \<open>A post with 23 engagements and 160 views: the exact rate is 14.375.\<close>

definition tieRow :: PostRow where
  "tieRow = mkRow ''t'' ''u1'' 0 20 2 1 160"

text \<open>A request on 15 March 2024, 00:00 UTC.\<close>

definition march15 :: Date where
  "march15 = \<lparr>fullYear = 2024, monthIndex = 2, dateOfMonth = 15, timeInDay = 0\<rparr>"

definition twoUsers :: "(string \<times> string) list" where
  "twoUsers = [(''u1'', ''ann''), (''u2'', ''bob'')]"

text \<open>
  Two authors with one post each, created on 9 March 2024: \<open>u1\<close> with 1 engagement in 10
  views (rate 10), \<open>u2\<close> with 5 in 10 (rate 50).
\<close>

definition twoAuthors :: "PostRow list" where
  "twoAuthors =
     [mkRow ''a'' ''u1'' 1710000000000 1 0 0 10, mkRow ''b'' ''u2'' 1710000000000 5 0 0 10]"

text \<open>The only post of the window has 3 likes and no views.\<close>

definition unseenPost :: "PostRow list" where
  "unseenPost = [mkRow ''b'' ''u2'' 1710000000000 3 0 0 0]"

section \<open>Properties of the library operations\<close>

lemma getOr0_countStep:
  "getOr0 (countStep k m) j = (if j = k then getOr0 m k + 1 else getOr0 m j)"
  by (simp add: getOr0_def countStep_def update_conv')

lemma getOr0_fold_countStep:
  "getOr0 (fold countStep ks m) j = getOr0 m j + count_list ks j"
  by (induction ks arbitrary: m) (simp_all add: getOr0_countStep)

lemma getOr0_Nil: "getOr0 [] j = 0"
  by (simp add: getOr0_def)

lemma getOr0_countKeys: "getOr0 (countKeys ks) j = count_list ks j"
  by (simp add: countKeys_def getOr0_fold_countStep getOr0_Nil)

lemma set_place: "set (place cmp x xs) = insert x (set xs)"
  by (induction xs) auto

lemma set_arraySort: "set (arraySort cmp xs) = set xs"
  by (induction xs) (simp_all add: arraySort_def set_place)

lemma length_place: "length (place cmp x xs) = Suc (length xs)"
  by (induction xs) auto

lemma length_arraySort: "length (arraySort cmp xs) = length xs"
  by (induction xs) (simp_all add: arraySort_def length_place)

text \<open>
  A comparator that compares a key: \<open>cmp a b \<le> 0\<close> exactly when \<open>a\<close>'s key may stand in
  front of \<open>b\<close>'s in the order \<open>le\<close>, a total preorder on keys.
\<close>

lemma sorted_place:
  assumes tot: "\<And>a b. le a b \<or> le b a"
    and trans: "\<And>a b c. le a b \<Longrightarrow> le b c \<Longrightarrow> le a c"
    and cmp: "\<And>a b. (cmp a b \<le> 0) = le a b"
  shows "sorted_wrt le xs \<Longrightarrow> sorted_wrt le (place cmp x xs)"
proof (induction xs)
  case Nil
  then show ?case by simp
next
  case (Cons y ys)
  show ?case
  proof (cases "cmp x y \<le> 0")
    case True
    then have xy: "le x y" by (simp add: cmp)
    have "\<forall>z\<in>set ys. le x z"
      using Cons.prems xy trans by auto
    then show ?thesis using True xy Cons.prems by simp
  next
    case False
    then have "le y x" using tot [of x y] by (simp add: cmp)
    then show ?thesis using False Cons by (auto simp: set_place)
  qed
qed

lemma sorted_arraySort:
  assumes "\<And>a b. le a b \<or> le b a"
    and "\<And>a b c. le a b \<Longrightarrow> le b c \<Longrightarrow> le a c"
    and "\<And>a b. (cmp a b \<le> 0) = le a b"
  shows "sorted_wrt le (arraySort cmp xs)"
proof (induction xs)
  case Nil
  then show ?case by (simp add: arraySort_def)
next
  case (Cons x xs)
  have "sorted_wrt le (place cmp x (arraySort cmp xs))"
    using assms Cons by (rule sorted_place)
  then show ?case by (simp add: arraySort_def)
qed

text \<open>Stability: elements that compare equal keep their order.\<close>

lemma filter_place_other: "\<not> P x \<Longrightarrow> filter P (place cmp x xs) = filter P xs"
  by (induction xs) auto

lemma filter_place_first:
  assumes "P x" and "\<And>y. y \<in> set xs \<Longrightarrow> P y \<Longrightarrow> cmp x y \<le> 0"
  shows "filter P (place cmp x xs) = x # filter P xs"
  using assms by (induction xs) auto

lemma filter_arraySort:
  assumes "\<And>x y. x \<in> set xs \<Longrightarrow> y \<in> set xs \<Longrightarrow> P x \<Longrightarrow> P y \<Longrightarrow> cmp x y \<le> 0"
  shows "filter P (arraySort cmp xs) = filter P xs"
  using assms
proof (induction xs)
  case Nil
  then show ?case by (simp add: arraySort_def)
next
  case (Cons x xs)
  have ih: "filter P (arraySort cmp xs) = filter P xs"
    using Cons by simp
  show ?case
  proof (cases "P x")
    case True
    have "filter P (place cmp x (arraySort cmp xs)) = x # filter P (arraySort cmp xs)"
      using True Cons.prems by (intro filter_place_first) (auto simp: set_arraySort)
    then show ?thesis using True ih by (simp add: arraySort_def)
  next
    case False
    then show ?thesis using ih by (simp add: arraySort_def filter_place_other)
  qed
qed

lemma slice0_take: "\<exists>k. slice0 n xs = take k xs"
  by (auto simp: slice0_def)

lemma length_slice0: "0 \<le> n \<Longrightarrow> int (length (slice0 n xs)) \<le> n"
  by (simp add: slice0_def)

lemma prefix_filter_take: "prefix (filter P (take k xs)) (filter P xs)"
proof -
  have "prefix (take k xs) xs" by (simp add: take_is_prefix)
  then show ?thesis by (rule filter_mono_prefix)
qed

lemma fold_max_step:
  "fold (\<lambda>count m. if count > m then count else m) xs (m0::nat) = Max (insert m0 (set xs))"
proof (induction xs arbitrary: m0)
  case Nil
  then show ?case by simp
next
  case (Cons x xs)
  have "Max (insert m0 (insert x (set xs))) = Max (insert (max x m0) (set xs))"
    by (cases "xs = []") (simp_all add: max.assoc max.commute max.left_commute)
  then show ?case using Cons by (simp add: max_def not_less)
qed

lemma maxCount_Max: "maxCount xs = Max (insert 0 (set xs))"
  by (simp add: maxCount_def fold_max_step)

lemma map_of_countStep: "map_of (countStep a m) = (map_of m)(a \<mapsto> getOr0 m a + 1)"
  by (simp add: countStep_def update_conv')

lemma map_of_fold_countStep:
  "map_of (fold countStep ks m) k =
     (if k \<in> set ks \<or> map_of m k \<noteq> None then Some (getOr0 m k + count_list ks k) else None)"
proof (induction ks arbitrary: m)
  case Nil
  then show ?case by (auto simp: getOr0_def)
next
  case (Cons a ks)
  show ?case
    by (simp add: Cons map_of_countStep getOr0_countStep)
qed

lemma distinct_fold_countStep:
  "distinct (map fst m) \<Longrightarrow> distinct (map fst (fold countStep ks m))"
  by (induction ks arbitrary: m) (simp_all add: countStep_def distinct_update)

lemma values_countKeys: "set (map snd (countKeys ks)) = count_list ks ` set ks"
proof -
  have d: "distinct (map fst (countKeys ks))"
    by (simp add: countKeys_def distinct_fold_countStep)
  have m: "map_of (countKeys ks) k = (if k \<in> set ks then Some (count_list ks k) else None)" for k
    by (simp add: countKeys_def map_of_fold_countStep getOr0_Nil)
  have "snd ` set (countKeys ks) = ran (map_of (countKeys ks))"
    using d by (simp add: ran_distinct)
  also have "\<dots> = count_list ks ` set ks"
    by (auto simp: ran_def m split: if_splits)
  finally show ?thesis by simp
qed

lemma count_list_map_key: "count_list (map f xs) y = length (filter (\<lambda>x. f x = y) xs)"
  by (induction xs) simp_all

lemma getOr0_comment_counts:
  "getOr0 (countKeys (map comment_postId (comments raw))) (post_id p) = commentsOn raw p"
  by (simp add: getOr0_countKeys count_list_map_key commentsOn_def)

lemma maxCount_comment_counts:
  assumes refs: "\<And>k. k \<in> comment_postId ` set (comments raw) \<Longrightarrow>
                   k \<notin> post_id ` set (posts raw) \<Longrightarrow>
                   \<exists>p \<in> set (posts raw).
                     count_list (map comment_postId (comments raw)) k \<le> commentsOn raw p"
    and ne: "posts raw \<noteq> []"
  shows "maxCount (map snd (countKeys (map comment_postId (comments raw))))
           = Max (commentsOn raw ` set (posts raw))"
proof -
  let ?ks = "map comment_postId (comments raw)"
  let ?A = "insert 0 (count_list ?ks ` set ?ks)"
  let ?B = "commentsOn raw ` set (posts raw)"
  have on: "commentsOn raw p = count_list ?ks (post_id p)" for p
    by (simp add: count_list_map_key commentsOn_def)
  have finB: "finite ?B" and neB: "?B \<noteq> {}" using ne by simp_all
  have le1: "Max ?A \<le> Max ?B"
  proof (rule Max.boundedI)
    show "finite ?A" by simp
    show "?A \<noteq> {}" by simp
    fix a assume "a \<in> ?A"
    then consider "a = 0" | k where "k \<in> set ?ks" "a = count_list ?ks k" by auto
    then show "a \<le> Max ?B"
    proof cases
      case 1
      then show ?thesis by simp
    next
      case 2
      show ?thesis
      proof (cases "k \<in> post_id ` set (posts raw)")
        case True
        then obtain p where "p \<in> set (posts raw)" "k = post_id p" by auto
        then have "a \<in> ?B" using 2 on by auto
        from Max_ge [OF finB this] show ?thesis .
      next
        case False
        have "k \<in> comment_postId ` set (comments raw)" using 2(1) by simp
        from refs [OF this False] obtain p
          where p: "p \<in> set (posts raw)" "count_list ?ks k \<le> commentsOn raw p"
          by blast
        have "commentsOn raw p \<in> ?B" using p(1) by simp
        from Max_ge [OF finB this] have "commentsOn raw p \<le> Max ?B" .
        with p(2) 2(2) show ?thesis by linarith
      qed
    qed
  qed
  have le2: "Max ?B \<le> Max ?A"
  proof (rule Max.boundedI [OF finB neB])
    fix b assume "b \<in> ?B"
    then obtain p where p: "p \<in> set (posts raw)" "b = count_list ?ks (post_id p)"
      using on by auto
    have "b \<in> ?A"
    proof (cases "post_id p \<in> set ?ks")
      case True
      then show ?thesis using p by blast
    next
      case False
      then have "b = 0" using p by (simp add: count_list_0_iff)
      then show ?thesis by simp
    qed
    then show "b \<le> Max ?A" by (intro Max_ge) simp_all
  qed
  have "maxCount (map snd (countKeys ?ks)) = Max ?A"
    by (simp only: maxCount_Max values_countKeys)
  also have "\<dots> = Max ?B"
    using le1 le2 by (rule antisym)
  finally show ?thesis .
qed

text \<open>The \<open>postCount\<close> of a user is the number of posts that name the user.\<close>

lemma postCount_counts_posts:
  "map postCount (usersWithCounts raw)
     = map (\<lambda>u. length (filter (\<lambda>p. post_userId p = user_id u) (posts raw))) (users raw)"
  by (simp add: usersWithCounts_def withPostCount_def getOr0_countKeys count_list_map_key Let_def)

section \<open>Top users\<close>

text \<open>
  Claim C9. For every snapshot, \<open>topUsers\<close> has at most 5 entries, is ordered by
  non-increasing \<open>postCount\<close>, and users of equal \<open>postCount\<close> stand in the order of the
  snapshot: for every count \<open>k\<close> the returned users with \<open>k\<close> posts are an initial part of
  the snapshot's users with \<open>k\<close> posts, in the snapshot's order.
\<close>

theorem computeTopUsers_bounded_sorted_stable:
  "length (topUsers (computed (computeTopUsers c))) \<le> 5 \<and>
   sorted_wrt (\<lambda>a b. postCount b \<le> postCount a) (topUsers (computed (computeTopUsers c))) \<and>
   (\<forall>k. prefix (filter (\<lambda>u. postCount u = k) (topUsers (computed (computeTopUsers c))))
                (filter (\<lambda>u. postCount u = k) (usersWithCounts (rawData c))))"
proof -
  let ?uwc = "usersWithCounts (rawData c)"
  let ?s = "arraySort byPostCountDesc ?uwc"
  have out: "topUsers (computed (computeTopUsers c)) = take 5 ?s"
    by (simp add: computeTopUsers_def slice0_def)
  have srt: "sorted_wrt (\<lambda>a b. postCount b \<le> postCount a) ?s"
    by (rule sorted_arraySort) (auto simp: byPostCountDesc_def)
  have stab: "filter (\<lambda>u. postCount u = k) ?s = filter (\<lambda>u. postCount u = k) ?uwc" for k
    by (rule filter_arraySort) (simp add: byPostCountDesc_def)
  have "sorted_wrt (\<lambda>a b. postCount b \<le> postCount a) (take 5 ?s)"
    using srt by (rule sorted_wrt_take)
  moreover have "prefix (filter (\<lambda>u. postCount u = k) (take 5 ?s))
                        (filter (\<lambda>u. postCount u = k) ?uwc)" for k
    using prefix_filter_take [of "\<lambda>u. postCount u = k" 5 ?s] by (simp add: stab)
  ultimately show ?thesis by (simp add: out)
qed

section \<open>Popular posts of the snapshot\<close>

text \<open>
  For every snapshot: the posts returned are those whose comment count equals the largest
  count of any post id that occurs in a comment, or 0 if there is no comment.
\<close>

lemma popularPosts_of_any_snapshot:
  "popularPosts (computed (computePopularPosts c)) =
     map (\<lambda>p. withStats p (commentsOn (rawData c) p)
                  (nameOf (userMap (users (rawData c))) (post_userId p)))
         (filter (\<lambda>p. commentsOn (rawData c) p =
                    Max (insert 0 (count_list (map comment_postId (comments (rawData c)))
                                     ` set (map comment_postId (comments (rawData c))))))
                 (posts (rawData c)))"
proof -
  have m: "maxCount (map snd (countKeys (map comment_postId (comments (rawData c))))) =
      Max (insert 0 (count_list (map comment_postId (comments (rawData c)))
                       ` set (map comment_postId (comments (rawData c)))))"
    by (simp only: maxCount_Max values_countKeys)
  show ?thesis
    unfolding computePopularPosts_def Let_def m
    by (simp add: getOr0_comment_counts)
qed

text \<open>A snapshot without posts has no popular posts, whatever its comments are.\<close>

lemma popularPosts_without_posts:
  "posts (rawData c) = [] \<Longrightarrow> popularPosts (computed (computePopularPosts c)) = []"
  by (simp add: computePopularPosts_def Let_def)

text \<open>
  The posts returned are the posts with the largest comment count of any post, each with
  its comment count and its author's name, unless a post id that is not in the snapshot has
  more comments than every post of the snapshot.
\<close>

lemma popularPosts_tied_for_most:
  assumes "\<And>k. k \<in> comment_postId ` set (comments (rawData c)) \<Longrightarrow>
                k \<notin> post_id ` set (posts (rawData c)) \<Longrightarrow>
                \<exists>p \<in> set (posts (rawData c)).
                  count_list (map comment_postId (comments (rawData c))) k
                    \<le> commentsOn (rawData c) p"
  shows "popularPosts (computed (computePopularPosts c)) =
           map (\<lambda>p. withStats p (commentsOn (rawData c) p)
                        (nameOf (userMap (users (rawData c))) (post_userId p)))
               (tiedForMostComments (rawData c))"
proof (cases "posts (rawData c) = []")
  case True
  then show ?thesis by (simp add: computePopularPosts_def tiedForMostComments_def Let_def)
next
  case False
  have m: "maxCount (map snd (countKeys (map comment_postId (comments (rawData c)))))
             = Max (commentsOn (rawData c) ` set (posts (rawData c)))"
    using assms False by (rule maxCount_comment_counts)
  show ?thesis
    unfolding computePopularPosts_def Let_def m
    by (simp add: tiedForMostComments_def getOr0_comment_counts)
qed

text \<open>Three posts with 1, 2 and 2 comments: both posts with 2 comments are returned.\<close>

lemma popularPosts_tiedSnapshot:
  "popularPosts (computed (computePopularPosts (cacheOf tiedSnapshot))) =
     [withStats (mkPost ''p2'' ''u1'') 2 (Some ''Ann''), withStats (mkPost ''p3'' ''u2'') 2 None]"
  by (simp add: computePopularPosts_def cacheOf_def tiedSnapshot_def mkPost_def mkComment_def
      mkUser_def countKeys_def countStep_def getOr0_def maxCount_def userMap_def nameOf_def
      withStats_def Let_def)

text \<open>
  One post with two comments and one comment on a post that is not in the snapshot: the
  post is returned.
\<close>

lemma popularPosts_outnumberedOrphan:
  "popularPosts (computed (computePopularPosts (cacheOf outnumberedOrphan))) =
     [withStats (mkPost ''p1'' ''u1'') 2 None]"
  by (simp add: computePopularPosts_def cacheOf_def outnumberedOrphan_def mkPost_def
      mkComment_def countKeys_def countStep_def getOr0_def maxCount_def userMap_def nameOf_def
      withStats_def Let_def)

text \<open>
  Claim C1. The snapshot \<open>orphanSnapshot\<close> has one post, \<open>p1\<close>, and one comment, on a post
  that is not in the snapshot. The largest comment count of any post is 0, the count of
  \<open>p1\<close>, so the posts whose comment count equals the maximum across all posts are \<open>[p1]\<close>;
  \<open>computePopularPosts\<close> returns no post: its maximum, 1, is the largest count of any post
  id that occurs in a comment.
\<close>

theorem popularPosts_misses_maximum_over_posts:
  "posts orphanSnapshot = [mkPost ''p1'' ''u1''] \<and>
   commentsOn orphanSnapshot (mkPost ''p1'' ''u1'') = 0 \<and>
   tiedForMostComments orphanSnapshot = [mkPost ''p1'' ''u1''] \<and>
   maxCount (map snd (countKeys (map comment_postId (comments orphanSnapshot)))) = 1 \<and>
   popularPosts (computed (computePopularPosts (cacheOf orphanSnapshot))) = []"
  by (simp add: computePopularPosts_def cacheOf_def orphanSnapshot_def tiedForMostComments_def
      commentsOn_def mkPost_def mkComment_def countKeys_def countStep_def getOr0_def maxCount_def
      userMap_def Let_def)

section \<open>Single flight\<close>

lemma singleFlight_initial: "singleFlight initialWorld"
  by (simp add: singleFlight_def initialWorld_def newService_def)

lemma singleFlight_refreshData: "singleFlight w \<Longrightarrow> singleFlight (fst (refreshData force now w))"
  by (auto simp: singleFlight_def refreshData_def Let_def split: option.splits)

lemma singleFlight_fetchSettles: "singleFlight w \<Longrightarrow> singleFlight (fetchSettles tm p fetched finished w)"
  by (auto simp: singleFlight_def fetchSettles_def Let_def split: option.splits prod.splits)

lemma singleFlight_resumeFinally: "singleFlight w \<Longrightarrow> singleFlight (resumeFinally p w)"
  by (auto simp: singleFlight_def resumeFinally_def split: option.splits)

lemma singleFlight_step: "singleFlight w \<Longrightarrow> singleFlight (step tm ev w)"
  by (cases ev) (simp_all add: singleFlight_refreshData singleFlight_fetchSettles singleFlight_resumeFinally)

lemma singleFlight_run: "singleFlight w \<Longrightarrow> singleFlight (run tm evs w)"
  unfolding run_def by (induction evs arbitrary: w) (simp_all add: singleFlight_step)

lemma refreshData_while_promise:
  "refreshPromise (service w) = Some p \<Longrightarrow>
   refreshData force now w =
     (w, if \<not> force \<and> isCacheFresh now (cache (service w)) then Fresh else Joined p)"
  by (simp add: refreshData_def)

lemma calls_while_promise:
  "refreshPromise (service w) = Some p \<Longrightarrow> run tm (map (\<lambda>(f, n). Call f n) calls) w = w"
  unfolding run_def by (induction calls) (auto simp: refreshData_while_promise)

lemma burst_starts_at_most_one_fetch:
  "fetchAllCalls (run tm (map (\<lambda>(f, n). Call f n) calls) w) \<le> Suc (fetchAllCalls w)"
proof (induction calls arbitrary: w)
  case Nil
  then show ?case by (simp add: run_def)
next
  case (Cons c calls)
  obtain f n where c: "c = (f, n)" by (cases c)
  have unfold: "run tm (map (\<lambda>(f, n). Call f n) (c # calls)) w
      = run tm (map (\<lambda>(f, n). Call f n) calls) (fst (refreshData f n w))"
    by (simp add: run_def c)
  show ?case
  proof (cases "fst (refreshData f n w) = w")
    case True
    show ?thesis unfolding unfold True by (rule Cons.IH)
  next
    case False
    then have started: "refreshPromise (service (fst (refreshData f n w))) = Some (fetchAllCalls w)"
      and count: "fetchAllCalls (fst (refreshData f n w)) = Suc (fetchAllCalls w)"
      by (auto simp: refreshData_def Let_def split: if_splits option.splits)
    show ?thesis
      unfolding unfold calls_while_promise [OF started] count by simp
  qed
qed

text \<open>
  Claim C2, as amended. In every world the program can reach, while a fetch is in flight
  it is the only one and \<open>refreshPromise\<close> holds its promise; a call of \<open>refreshData\<close>
  then changes nothing, in particular starts no fetch, and returns the promise of the fetch
  in flight, unless it is not forced and the cache is still fresh, when it returns at once;
  any burst of such calls leaves the number of \<open>fetchAllData\<close> calls as it is. A caller that
  holds the promise of the fetch in flight observes, in any later world, the outcome of that
  fetch. From any world, a burst of calls starts at most one fetch.
\<close>

theorem refresh_in_flight_starts_no_second_fetch:
  assumes "w = run tm evs initialWorld" and "fetching w \<noteq> []"
  shows "\<exists>p. fetching w = [p] \<and> refreshPromise (service w) = Some p \<and>
             refreshData force now w =
               (w, if \<not> force \<and> isCacheFresh now (cache (service w)) then Fresh else Joined p) \<and>
             run tm (map (\<lambda>(f, n). Call f n) calls) w = w \<and>
             fetchAllCalls (run tm (map (\<lambda>(f, n). Call f n) calls) w) = fetchAllCalls w \<and>
             observe (Joined p) w' = outcome w' p \<and>
             fetchAllCalls (run tm (map (\<lambda>(f, n). Call f n) calls) w0) \<le> Suc (fetchAllCalls w0)"
proof -
  have "singleFlight w"
    using assms(1) singleFlight_initial by (simp add: singleFlight_run)
  with assms(2) obtain p where p: "fetching w = [p]" "refreshPromise (service w) = Some p"
    by (auto simp: singleFlight_def split: option.splits)
  then show ?thesis
    by (simp add: refreshData_while_promise calls_while_promise observe_def
        burst_starts_at_most_one_fetch)
qed

text \<open>Reached by \<open>[Call True 0]\<close>: a first, forced refresh is in flight.\<close>

theorem refresh_in_flight_witness:
  "fetching (run noDates [Call True 0] initialWorld) \<noteq> [] \<and>
   snd (refreshData False 5 (run noDates [Call True 0] initialWorld)) = Joined 0 \<and>
   fetchAllCalls (run noDates (map (\<lambda>(f, n). Call f n) [(False, 5), (True, 6)])
                    (run noDates [Call True 0] initialWorld)) = 1"
proof -
  let ?w = "run noDates [Call True 0] initialWorld"
  have f: "fetching ?w \<noteq> []"
    by (simp add: run_def refreshData_def initialWorld_def newService_def Let_def)
  have c: "fetchAllCalls ?w = 1" and stale: "\<not> isCacheFresh 5 (cache (service ?w))"
    by (simp_all add: run_def refreshData_def initialWorld_def newService_def Let_def
        isCacheFresh_def)
  from refresh_in_flight_starts_no_second_fetch [OF refl f, of False 5 "[(False, 5), (True, 6)]"]
  obtain p where p: "fetching ?w = [p]"
    "refreshData False 5 ?w =
       (?w, if \<not> False \<and> isCacheFresh 5 (cache (service ?w)) then Fresh else Joined p)"
    "fetchAllCalls (run noDates (map (\<lambda>(f, n). Call f n) [(False, 5), (True, 6)]) ?w)
       = fetchAllCalls ?w"
    by blast
  have "fetching ?w = [0]"
    by (simp add: run_def refreshData_def initialWorld_def newService_def Let_def)
  with p(1) have "p = 0" by simp
  with p(2) stale have "snd (refreshData False 5 ?w) = Joined 0" by simp
  with f p(3) c show ?thesis by simp
qed

text \<open>
  As stated, that every caller awaits the fetch in flight whether forced or not, the claim
  fails: with the forced refresh of \<open>busyFreshWorld\<close> in flight, a call that is not forced
  finds the cache of time 1200 still fresh at time 5001 and returns at once.
\<close>

lemma populatedWorld_fields:
  "lastFetched (cache (service populatedWorld)) = 1200"
  "refreshPromise (service populatedWorld) = None"
  "fetching populatedWorld = []" "fetchAllCalls populatedWorld = 1"
  by (simp_all add: populatedWorld_def run_def initialWorld_def newService_def refreshData_def
      isCacheFresh_def fetchSettles_def resumeFinally_def performRefresh_def Let_def
      computePopularPosts_def computeLatestPosts_def computeTopUsers_def)

theorem fresh_caller_does_not_await_counterexample:
  "fetching busyFreshWorld = [1] \<and> snd (refreshData False 5001 busyFreshWorld) = Fresh"
  by (simp add: busyFreshWorld_def run_def refreshData_def populatedWorld_fields isCacheFresh_def
      getCacheExpiry_def CACHE_DURATION_def Let_def)

section \<open>A failed refresh\<close>

text \<open>
  Claim C4. When the fetch fails, \<open>performRefresh\<close> returns the cache it was given. The
  whole cache (raw data, the three views, \<open>lastFetched\<close>) is left as it is by a call of
  \<open>refreshData\<close>, by the settling of a failed fetch and by a \<open>finally\<close> block, so it is
  the same after a whole failed attempt as before it.
\<close>

theorem failed_refresh_keeps_cache:
  "fst (performRefresh tm (Inl e) finished c) = c \<and>
   cache (service (step tm (Call force now) w)) = cache (service w) \<and>
   cache (service (step tm (Settle p (Inl e) finished) w)) = cache (service w) \<and>
   cache (service (step tm (Resume p) w)) = cache (service w) \<and>
   cache (service (run tm [Call force now, Settle p (Inl e) finished, Resume p] w))
     = cache (service w)"
  by (simp add: run_def performRefresh_def fetchSettles_def resumeFinally_def refreshData_def
      Let_def split: option.splits)

text \<open>
  Claim C3, as amended. An accessor called when no refresh is under way and the cache is
  not fresh starts a refresh; if that refresh fails, each of the three accessors passes the
  error on to its caller, whether or not an earlier fetch has filled the cache, and the
  cache stays as it was.
\<close>

theorem accessor_rethrows_failed_refresh:
  assumes "refreshPromise (service w) = None" and "\<not> isCacheFresh now (cache (service w))"
  shows "snd (refreshData False now w) = Started (fetchAllCalls w) \<and>
         getTopUsers (snd (refreshData False now w)) (afterFailedRefresh tm now e finished w)
           = Some (Inl e) \<and>
         getLatestPosts (snd (refreshData False now w)) (afterFailedRefresh tm now e finished w)
           = Some (Inl e) \<and>
         getPopularPosts (snd (refreshData False now w)) (afterFailedRefresh tm now e finished w)
           = Some (Inl e) \<and>
         cache (service (afterFailedRefresh tm now e finished w)) = cache (service w)"
  using assms
  by (simp add: afterFailedRefresh_def run_def refreshData_def Let_def fetchSettles_def
      resumeFinally_def performRefresh_def getTopUsers_def getLatestPosts_def getPopularPosts_def
      accessorResult_def observe_def)

text \<open>The first fetch of a new service fails.\<close>

theorem accessor_rethrows_witness:
  "refreshPromise (service initialWorld) = None \<and>
   \<not> isCacheFresh 1000 (cache (service initialWorld)) \<and>
   getTopUsers (snd (refreshData False 1000 initialWorld))
     (afterFailedRefresh noDates 1000 (FetchError ''down'') 1100 initialWorld)
     = Some (Inl (FetchError ''down''))"
proof -
  have h1: "refreshPromise (service initialWorld) = None"
    by (simp add: initialWorld_def newService_def)
  have h2: "\<not> isCacheFresh 1000 (cache (service initialWorld))"
    by (simp add: initialWorld_def newService_def isCacheFresh_def)
  from accessor_rethrows_failed_refresh [OF h1 h2, of noDates "FetchError ''down''" 1100]
  have "getTopUsers (snd (refreshData False 1000 initialWorld))
          (afterFailedRefresh noDates 1000 (FetchError ''down'') 1100 initialWorld)
          = Some (Inl (FetchError ''down''))"
    by blast
  with h1 h2 show ?thesis by blast
qed

text \<open>
  As stated, that an accessor returns the stale view when the refresh fails and the cache
  has been filled before, the claim fails: the cache of \<open>populatedWorld\<close> was filled at time
  1200 and holds a view of one user; at time 20000 it is no longer fresh, the refresh that
  \<open>getTopUsers\<close> starts fails, and \<open>getTopUsers\<close> ends with the error, not with the view.
\<close>

theorem stale_view_not_served_counterexample:
  "lastFetched (cache (service populatedWorld)) = 1200 \<and>
   topUsers (computed (cache (service populatedWorld))) = [withPostCount (mkUser ''u1'' ''Ann'') 1] \<and>
   getTopUsers (snd (refreshData False 20000 populatedWorld))
     (afterFailedRefresh noDates 20000 (FetchError ''down'') 20100 populatedWorld)
     = Some (Inl (FetchError ''down''))"
proof -
  have v: "topUsers (computed (cache (service populatedWorld))) = [withPostCount (mkUser ''u1'' ''Ann'') 1]"
    by (simp add: populatedWorld_def run_def initialWorld_def newService_def refreshData_def
      isCacheFresh_def fetchSettles_def resumeFinally_def performRefresh_def Let_def
      computePopularPosts_def computeLatestPosts_def computeTopUsers_def usersWithCounts_def
      exampleData_def orEmpty_def mkUser_def mkPost_def countKeys_def countStep_def getOr0_def
      arraySort_def slice0_def withPostCount_def)
  have r: "getTopUsers (snd (refreshData False 20000 populatedWorld))
     (afterFailedRefresh noDates 20000 (FetchError ''down'') 20100 populatedWorld)
     = Some (Inl (FetchError ''down''))"
    by (simp add: afterFailedRefresh_def run_def refreshData_def populatedWorld_fields
      isCacheFresh_def getCacheExpiry_def CACHE_DURATION_def Let_def fetchSettles_def
      resumeFinally_def performRefresh_def getTopUsers_def accessorResult_def observe_def)
  show ?thesis using v r by (simp add: populatedWorld_fields)
qed

section \<open>Rounding to two decimals and the rate of the comparison\<close>

lemma toFixed2_nonneg_cases:
  assumes "0 \<le> x"
  shows "toFixed2 x = of_int \<lfloor>x * 100 + 1 / 2\<rfloor> / 100"
  using assms by (simp add: toFixed2_def)

lemma toFixed2_near:
  assumes "0 \<le> x"
  shows "\<bar>toFixed2 x - x\<bar> \<le> 1 / 200" and "toFixed2 x * 100 \<in> \<int>" and "0 \<le> toFixed2 x"
proof -
  define y where "y = real_of_int \<lfloor>x * 100 + 1 / 2\<rfloor>"
  have t: "toFixed2 x = y / 100"
    unfolding y_def using assms by (rule toFixed2_nonneg_cases)
  have lo: "y \<le> x * 100 + 1 / 2"
    unfolding y_def by (rule of_int_floor_le)
  have hi: "x * 100 + 1 / 2 < y + 1"
    unfolding y_def by linarith
  show "\<bar>toFixed2 x - x\<bar> \<le> 1 / 200"
    unfolding t using lo hi by linarith
  show "toFixed2 x * 100 \<in> \<int>"
    by (simp add: t y_def)
  have "0 \<le> \<lfloor>x * 100 + 1 / 2\<rfloor>" using assms by simp
  then have "0 \<le> y" by (simp add: y_def)
  then show "0 \<le> toFixed2 x" by (simp add: t)
qed

lemma rateOf_nonneg: "0 \<le> rateOf e v"
  by (simp add: rateOf_def)

section \<open>Arithmetic of doubles\<close>

text \<open>
  The quotient of two positive integers is rounded to a double with a relative error of at
  most \<open>2 ^ -53\<close>.
\<close>

lemma bitLength_bounds:
  "0 < n \<Longrightarrow> 2 ^ (bitLength n - 1) \<le> n \<and> n < 2 ^ bitLength n"
proof (induction n rule: bitLength.induct)
  case (1 n)
  show ?case
  proof (cases "n div 2 = 0")
    case True
    with "1.prems" have "n = 1" by (simp add: div_eq_0_iff)
    then show ?thesis by (simp add: bitLength.simps)
  next
    case False
    then have h: "2 ^ (bitLength (n div 2) - 1) \<le> n div 2 \<and> n div 2 < 2 ^ bitLength (n div 2)"
      using "1.IH" "1.prems" by simp
    have b: "bitLength n = Suc (bitLength (n div 2))"
      using "1.prems" by (simp add: bitLength.simps [of n])
    have pos: "0 < bitLength (n div 2)"
      using False by (simp add: bitLength.simps [of "n div 2"])
    then have p: "(2::nat) ^ bitLength (n div 2) = 2 * 2 ^ (bitLength (n div 2) - 1)"
      by (cases "bitLength (n div 2)") simp_all
    have "2 ^ bitLength (n div 2) \<le> n" using h p by linarith
    moreover have "n < 2 * 2 ^ bitLength (n div 2)" using h by linarith
    ultimately show ?thesis by (simp add: b)
  qed
qed

lemma divRoundEven_near:
  assumes "0 < d"
  shows "\<bar>real (divRoundEven n d) - real n / real d\<bar> \<le> 1 / 2"
proof -
  define q where "q = n div d"
  define r where "r = n mod d"
  define f where "f = real r / real d"
  have n: "n = q * d + r" by (simp add: q_def r_def)
  have rd: "r < d" using assms by (simp add: r_def)
  have quot: "real n / real d = real q + f"
    using assms by (simp add: n f_def field_simps)
  have frac: "0 \<le> f" "f < 1"
    using rd assms by (simp_all add: f_def)
  consider "2 * r < d" | "d < 2 * r" | "2 * r = d" by linarith
  then show ?thesis
  proof cases
    case 1
    then have "2 * real r < real d" by linarith
    then have "f < 1 / 2" using assms by (simp add: f_def field_simps)
    moreover have "real (divRoundEven n d) = real q"
      using 1 by (simp add: divRoundEven_def q_def r_def Let_def)
    ultimately show ?thesis unfolding quot using frac by linarith
  next
    case 2
    then have "real d < 2 * real r" by linarith
    then have "1 / 2 < f" using assms by (simp add: f_def field_simps)
    moreover have "real (divRoundEven n d) = real q + 1"
      using 2 by (simp add: divRoundEven_def q_def r_def Let_def)
    ultimately show ?thesis unfolding quot using frac by linarith
  next
    case 3
    then have "2 * real r = real d" by linarith
    then have "f = 1 / 2" using assms by (simp add: f_def field_simps)
    moreover have "real (divRoundEven n d) = real q \<or> real (divRoundEven n d) = real q + 1"
      using 3 by (simp add: divRoundEven_def q_def r_def Let_def)
    ultimately show ?thesis unfolding quot by linarith
  qed
qed

lemma float64Value_powr:
  "float64Value x = real (mantissa x) * 2 powr real_of_int (exponent x)"
  by (simp add: float64Value_def powr_real_of_int field_simps)

lemma scaled_round:
  fixes m z u :: real
  assumes "\<bar>m - z\<bar> \<le> 1 / 2" and "2 ^ 52 \<le> z" and "0 < u"
  shows "\<bar>m * u - z * u\<bar> \<le> z * u / 2 ^ 53"
proof -
  have "\<bar>m * u - z * u\<bar> = \<bar>m - z\<bar> * u"
    using assms(3) by (simp add: abs_mult flip: left_diff_distrib)
  also have "\<dots> \<le> 1 / 2 * u"
    using assms(1,3) by (intro mult_right_mono) simp_all
  also have "\<dots> \<le> z / 2 ^ 53 * u"
    using assms(2,3) by (intro mult_right_mono) simp_all
  finally show ?thesis by simp
qed

lemma bitLength_real_bounds:
  assumes "0 < n"
  shows "2 powr (real (bitLength n) - 1) \<le> real n" and "real n < 2 powr real (bitLength n)"
proof -
  have b: "2 ^ (bitLength n - 1) \<le> n" "n < 2 ^ bitLength n"
    using bitLength_bounds [OF assms] by simp_all
  have pos: "0 < bitLength n"
    using assms by (simp add: bitLength.simps [of n])
  have "2 powr (real (bitLength n) - 1) = 2 powr real (bitLength n - 1)"
    using pos by (simp add: of_nat_diff)
  also have "\<dots> = real (2 ^ (bitLength n - 1))"
    by (simp add: powr_realpow)
  also have "\<dots> \<le> real n"
    using b(1) by (simp only: of_nat_le_iff)
  finally show "2 powr (real (bitLength n) - 1) \<le> real n" .
  have "real n < real (2 ^ bitLength n)"
    using b(2) by (simp only: of_nat_less_iff)
  also have "\<dots> = 2 powr real (bitLength n)"
    by (simp add: powr_realpow)
  finally show "real n < 2 powr real (bitLength n)" .
qed

lemma roundTo53_error:
  assumes n: "0 < n" and d: "0 < d"
  shows "\<bar>float64Value (roundTo53 n d) - real n / real d\<bar> \<le> real n / real d / 2 ^ 53"
proof -
  define sh where "sh = 53 + int (bitLength d) - int (bitLength n)"
  define n1 where "n1 = (if 0 \<le> sh then n * 2 ^ nat sh else n)"
  define d1 where "d1 = (if 0 \<le> sh then d else d * 2 ^ nat (- sh))"
  define q where "q = real n / real d"
  define y where "y = real n1 / real d1"
  have d1pos: "0 < d1" using d by (simp add: d1_def)
  have qpos: "0 < q" using n d by (simp add: q_def)
  have y_q: "y = q * 2 powr real_of_int sh"
    using d by (simp add: y_def q_def n1_def d1_def powr_real_of_int field_simps)
  have q_y: "q = y * 2 powr (- real_of_int sh)"
    by (simp add: y_q powr_minus)
  have "2 powr (real (bitLength n) - 1) / 2 powr real (bitLength d) < q"
  proof -
    have "2 powr (real (bitLength n) - 1) / 2 powr real (bitLength d)
            \<le> real n / 2 powr real (bitLength d)"
      using bitLength_real_bounds(1) [OF n] by (simp add: divide_right_mono)
    also have "\<dots> < real n / real d"
      using bitLength_real_bounds(2) [OF d] n d by (simp add: divide_strict_left_mono)
    finally show ?thesis by (simp add: q_def)
  qed
  then have "2 powr (real (bitLength n) - 1 - real (bitLength d)) < q"
    by (simp add: powr_diff)
  then have "2 powr (real (bitLength n) - 1 - real (bitLength d)) * 2 powr real_of_int sh < y"
    by (simp add: y_q)
  then have "2 powr (real (bitLength n) - 1 - real (bitLength d) + real_of_int sh) < y"
    by (simp only: powr_add)
  moreover have "real (bitLength n) - 1 - real (bitLength d) + real_of_int sh = 52"
    by (simp add: sh_def)
  ultimately have ylow: "2 ^ 52 < y" by simp
  show ?thesis
  proof (cases "d1 * 2 ^ 53 \<le> n1")
    case True
    define m where "m = divRoundEven n1 (2 * d1)"
    have r: "roundTo53 n d = \<lparr>mantissa = m, exponent = 1 - sh\<rparr>"
      unfolding roundTo53_def Let_def
      unfolding sh_def [symmetric]
      unfolding n1_def [symmetric] d1_def [symmetric] m_def
      using True by simp
    have e: "real n1 / real (2 * d1) = y / 2"
      by (simp add: y_def)
    have pos2: "0 < 2 * d1" using d1pos by simp
    have near: "\<bar>real m - y / 2\<bar> \<le> 1 / 2"
      using divRoundEven_near [OF pos2, of n1] unfolding m_def e .
    have "real (d1 * 2 ^ 53) \<le> real n1" using True by (simp only: of_nat_le_iff)
    then have big: "2 ^ 52 \<le> y / 2"
      using d1pos by (simp add: y_def field_simps)
    have A: "\<bar>real m * 2 powr (1 - real_of_int sh) - y / 2 * 2 powr (1 - real_of_int sh)\<bar>
            \<le> y / 2 * 2 powr (1 - real_of_int sh) / 2 ^ 53"
      using near big by (rule scaled_round) simp
    have B: "y / 2 * 2 powr (1 - real_of_int sh) = q"
      by (simp add: q_y powr_diff powr_minus field_simps)
    have V: "float64Value (roundTo53 n d) = real m * 2 powr (1 - real_of_int sh)"
      by (simp add: r float64Value_powr)
    show ?thesis
      using A unfolding B V q_def .
  next
    case False
    define m where "m = divRoundEven n1 d1"
    have r: "roundTo53 n d = \<lparr>mantissa = m, exponent = - sh\<rparr>"
      unfolding roundTo53_def Let_def
      unfolding sh_def [symmetric]
      unfolding n1_def [symmetric] d1_def [symmetric] m_def
      using False by simp
    have near: "\<bar>real m - y\<bar> \<le> 1 / 2"
      using divRoundEven_near [OF d1pos, of n1] unfolding m_def y_def .
    have big: "2 ^ 52 \<le> y" using ylow by simp
    have A: "\<bar>real m * 2 powr (- real_of_int sh) - y * 2 powr (- real_of_int sh)\<bar>
            \<le> y * 2 powr (- real_of_int sh) / 2 ^ 53"
      using near big by (rule scaled_round) simp
    have V: "float64Value (roundTo53 n d) = real m * 2 powr (- real_of_int sh)"
      by (simp add: r float64Value_powr)
    show ?thesis
      using A unfolding q_y [symmetric] V q_def .
  qed
qed

section \<open>Engagement metrics of a post\<close>

lemma float64Value_nonneg: "0 \<le> float64Value x"
  by (simp add: float64Value_def)

lemma float64Value_zero64: "float64Value zero64 = 0"
  by (simp add: float64Value_def zero64_def)

lemma float64Value_mantissa_0: "mantissa x = 0 \<Longrightarrow> float64Value x = 0"
  by (simp add: float64Value_def)

lemma mantissa_zero64: "mantissa zero64 = 0"
  by (simp add: zero64_def)

lemma toFixed2_zero: "toFixed2 0 = 0"
  by (simp add: toFixed2_def)

text \<open>\<open>x * 100\<close> for a double \<open>x\<close> that is not 0 rounds the exact product.\<close>

lemma times100_error:
  assumes "mantissa x \<noteq> 0"
  shows "\<exists>y. times100 (Finite x) = Finite y \<and>
             \<bar>float64Value y - float64Value x * 100\<bar> \<le> float64Value x * 100 / 2 ^ 53"
proof -
  let ?n = "100 * mantissa x * 2 ^ nat (exponent x)"
  let ?d = "(2::nat) ^ nat (- exponent x)"
  have q: "real ?n / real ?d = float64Value x * 100"
    by (simp add: float64Value_def)
  have "0 < ?n" and "0 < ?d" using assms by simp_all
  from roundTo53_error [OF this]
  have "\<bar>float64Value (roundTo53 ?n ?d) - float64Value x * 100\<bar> \<le> float64Value x * 100 / 2 ^ 53"
    unfolding q .
  then show ?thesis using assms by simp
qed

text \<open>
  The rate of a post is a number: not negative, with two decimals, and as near to the
  exact rate as the two roundings of the quotient and the rounding of \<open>toFixed\<close> allow.
\<close>

lemma engagementRate_value:
  "\<exists>r. engagementRate (engagementMetrics post) = Num r \<and> 0 \<le> r \<and> r * 100 \<in> \<int> \<and>
       \<bar>r - exactRate post\<bar> \<le> 1 / 200 + exactRate post / 2 ^ 51"
proof -
  define t where "t = count_likes post + count_comments post + count_shares post"
  define v where "v = count_views post"
  have rate: "engagementRate (engagementMetrics post) =
      toFixed2Float (if v > 0 then times100 (divCounts t v) else Finite zero64)"
    by (simp add: engagementMetrics_def Let_def t_def v_def)
  have ex: "exactRate post = (if v > 0 then real t / real v * 100 else 0)"
    by (simp add: exactRate_def t_def v_def)
  show ?thesis
  proof (cases "v > 0 \<and> t > 0")
    case False
    then have "engagementRate (engagementMetrics post) = Num 0"
      by (auto simp: rate divCounts_def float64Value_zero64 toFixed2_zero mantissa_zero64)
    moreover have "exactRate post = 0" using False by (auto simp: ex)
    ultimately show ?thesis by simp
  next
    case True
    define q where "q = real t / real v"
    have qpos: "0 < q" using True by (simp add: q_def)
    define x1 where "x1 = roundTo53 t v"
    have e1: "\<bar>float64Value x1 - q\<bar> \<le> q / 2 ^ 53"
      unfolding x1_def q_def using True by (intro roundTo53_error) simp_all
    have "float64Value x1 \<noteq> 0"
    proof
      assume "float64Value x1 = 0"
      with e1 have "q \<le> q / 2 ^ 53" by simp
      with qpos show False by simp
    qed
    then have m: "mantissa x1 \<noteq> 0"
      using float64Value_mantissa_0 by blast
    from times100_error [OF m] obtain y where y: "times100 (Finite x1) = Finite y"
      and e2: "\<bar>float64Value y - float64Value x1 * 100\<bar> \<le> float64Value x1 * 100 / 2 ^ 53"
      by blast
    define r where "r = toFixed2 (float64Value y)"
    have dc: "divCounts t v = Finite x1"
      using True by (simp add: divCounts_def x1_def)
    have "engagementRate (engagementMetrics post) = toFixed2Float (times100 (divCounts t v))"
      using True by (simp add: rate)
    also have "\<dots> = toFixed2Float (Finite y)"
      by (simp only: dc y)
    also have "\<dots> = Num r"
      by (simp add: r_def)
    finally have r: "engagementRate (engagementMetrics post) = Num r" .
    have near: "\<bar>r - float64Value y\<bar> \<le> 1 / 200" "r * 100 \<in> \<int>" "0 \<le> r"
      unfolding r_def by (rule toFixed2_near [OF float64Value_nonneg])+
    define a where "a = float64Value x1"
    define b where "b = float64Value y"
    have c: "(2::real) ^ 53 = 9007199254740992" "(2::real) ^ 51 = 2251799813685248" by simp_all
    have "\<bar>r - q * 100\<bar> \<le> 1 / 200 + q * 100 / 2 ^ 51"
      using e1 e2 near(1) qpos unfolding a_def [symmetric] b_def [symmetric] c by linarith
    moreover have "exactRate post = q * 100" using True by (simp add: ex q_def)
    ultimately show ?thesis using r near(2,3) by auto
  qed
qed

lemma engagementRate_finite: "\<exists>r. engagementRate (engagementMetrics post) = Num r"
  using engagementRate_value [of post] by blast

text \<open>Without the test of the views the expression has no numeric value for 0 views.\<close>

lemma unguarded_rate_at_zero_views:
  "toFixed2Float (times100 (divCounts 0 0)) = NaN \<and>
   toFixed2Float (times100 (divCounts (Suc n) 0)) = PosInfinity"
  by (simp add: divCounts_def)

lemma tieRow_double:
  "times100 (divCounts 23 160) = Finite \<lparr>mantissa = 0x1cbfffffffffff, exponent = -49\<rparr>"
  by (simp add: divCounts_def roundTo53_def bitLength.simps divRoundEven_def Let_def)

lemma tieRow_rate: "engagementRate (engagementMetrics tieRow) = Num (1437 / 100)"
  by (simp add: engagementMetrics_def tieRow_def mkRow_def Let_def tieRow_double float64Value_def
      toFixed2_def)

lemma tieRow_exact: "exactRate tieRow = 115 / 8 \<and> roundedExactRate tieRow = 1438 / 100"
  by (simp add: roundedExactRate_def exactRate_def tieRow_def mkRow_def toFixed2_def)

text \<open>
  Claim C8, as amended. For every post, \<open>totalEngagements\<close> is likes + comments + shares,
  without the views. The rate is \<open>totalEngagements / views * 100\<close> in the arithmetic of
  doubles, rounded by \<open>toFixed(2)\<close>, when the post has views: a number that is not negative,
  has two decimals and lies within 1/200 + x / 2 ^ 51 of the exact rate x. It is exactly 0
  when the post has no views. In every case it is a number, never \<open>NaN\<close> or infinite.
\<close>

theorem engagementMetrics_total_and_rate:
  "totalEngagements (engagementMetrics post)
     = count_likes post + count_comments post + count_shares post \<and>
   engagementRate (engagementMetrics post)
     = toFixed2Float
         (if count_views post > 0
          then times100 (divCounts (count_likes post + count_comments post + count_shares post)
                                   (count_views post))
          else Finite zero64) \<and>
   (\<exists>r. engagementRate (engagementMetrics post) = Num r \<and> 0 \<le> r \<and> r * 100 \<in> \<int> \<and>
        \<bar>r - exactRate post\<bar> \<le> 1 / 200 + exactRate post / 2 ^ 51) \<and>
   (count_views post = 0 \<longrightarrow> engagementRate (engagementMetrics post) = Num 0)"
proof -
  have "count_views post = 0 \<longrightarrow> engagementRate (engagementMetrics post) = Num 0"
    by (simp add: engagementMetrics_def float64Value_zero64 toFixed2_zero)
  then show ?thesis
    using engagementRate_value [of post] by (simp add: engagementMetrics_def Let_def)
qed

text \<open>A post with 3 likes and no views.\<close>

theorem engagementMetrics_no_views_witness:
  "count_views unseenRow = 0 \<and>
   totalEngagements (engagementMetrics unseenRow) = 3 \<and>
   engagementRate (engagementMetrics unseenRow) = Num 0"
proof -
  have v: "count_views unseenRow = 0"
    by (simp add: unseenRow_def mkRow_def)
  have t: "totalEngagements (engagementMetrics unseenRow) = 3"
    by (simp add: engagementMetrics_def unseenRow_def mkRow_def)
  from engagementMetrics_total_and_rate [of unseenRow] v
  have "engagementRate (engagementMetrics unseenRow) = Num 0"
    by blast
  with v t show ?thesis by blast
qed

text \<open>
  As stated, with the quotient rounded to two decimal places, the claim fails: for 23
  engagements and 160 views the exact rate is 14.375, which rounds to 14.38; the quotient of
  the doubles times 100 is 14.374999999999998, and the rate is 14.37.
\<close>

theorem engagementRate_tie_counterexample:
  "exactRate tieRow = 115 / 8 \<and> roundedExactRate tieRow = 1438 / 100 \<and>
   engagementRate (engagementMetrics tieRow) = Num (1437 / 100)"
  using tieRow_exact tieRow_rate by blast

section \<open>The order of the popular posts\<close>

text \<open>
  The sort orders a list whenever the comparator agrees with a total preorder on the
  elements of the list; the comparator of the rates does so on rates that are numbers.
\<close>

lemma sorted_place_on:
  assumes tot: "\<And>a b. a \<in> S \<Longrightarrow> b \<in> S \<Longrightarrow> le a b \<or> le b a"
    and trans: "\<And>a b c. le a b \<Longrightarrow> le b c \<Longrightarrow> le a c"
    and cmp: "\<And>a b. a \<in> S \<Longrightarrow> b \<in> S \<Longrightarrow> (cmp a b \<le> 0) = le a b"
    and x: "x \<in> S"
  shows "set xs \<subseteq> S \<Longrightarrow> sorted_wrt le xs \<Longrightarrow> sorted_wrt le (place cmp x xs)"
proof (induction xs)
  case Nil
  then show ?case by simp
next
  case (Cons y ys)
  have y: "y \<in> S" using Cons.prems(1) by simp
  show ?case
  proof (cases "cmp x y \<le> 0")
    case True
    then have xy: "le x y" using cmp [OF x y] by simp
    have "\<forall>z\<in>set ys. le x z"
      using Cons.prems(2) xy trans by auto
    then show ?thesis using True xy Cons.prems(2) by simp
  next
    case False
    then have "le y x" using tot [OF x y] cmp [OF x y] by simp
    then show ?thesis using False Cons by (auto simp: set_place)
  qed
qed

lemma sorted_arraySort_on:
  assumes "\<And>a b. a \<in> S \<Longrightarrow> b \<in> S \<Longrightarrow> le a b \<or> le b a"
    and "\<And>a b c. le a b \<Longrightarrow> le b c \<Longrightarrow> le a c"
    and "\<And>a b. a \<in> S \<Longrightarrow> b \<in> S \<Longrightarrow> (cmp a b \<le> 0) = le a b"
  shows "set xs \<subseteq> S \<Longrightarrow> sorted_wrt le (arraySort cmp xs)"
proof (induction xs)
  case Nil
  then show ?case by (simp add: arraySort_def)
next
  case (Cons x xs)
  have "sorted_wrt le (place cmp x (arraySort cmp xs))"
    using assms
  proof (rule sorted_place_on)
    show "x \<in> S" using Cons.prems by simp
    show "set (arraySort cmp xs) \<subseteq> S" using Cons.prems by (simp add: set_arraySort)
    show "sorted_wrt le (arraySort cmp xs)" using Cons by simp
  qed
  then show ?case by (simp add: arraySort_def)
qed

lemma byEngagementDesc_rankedBefore:
  assumes "engagementRate (snd a) = Num x" and "engagementRate (snd b) = Num y"
  shows "(byEngagementDesc a b \<le> 0) = rankedBefore a b"
  using assms by (auto simp: byEngagementDesc_def rankedBefore_def)

lemma rankedBefore_total:
  assumes "engagementRate (snd a) = Num x" and "engagementRate (snd b) = Num y"
  shows "rankedBefore a b \<or> rankedBefore b a"
  using assms by (auto simp: rankedBefore_def)

lemma numAtMost_trans: "numAtMost x y \<Longrightarrow> numAtMost y z \<Longrightarrow> numAtMost x z"
  by (cases x; cases y; cases z) simp_all

lemma rankedBefore_trans: "rankedBefore a b \<Longrightarrow> rankedBefore b c \<Longrightarrow> rankedBefore a c"
  by (auto simp: rankedBefore_def intro: numAtMost_trans)

lemma sorted_sortedPosts:
  "sorted_wrt rankedBefore (arraySort byEngagementDesc (postsWithEngagement rows))"
proof (rule sorted_arraySort_on [where S = "{a. \<exists>r. engagementRate (snd a) = Num r}"])
  show "set (postsWithEngagement rows) \<subseteq> {a. \<exists>r. engagementRate (snd a) = Num r}"
    by (auto simp: postsWithEngagement_def engagementRate_finite)
next
  fix a b :: "PostRow \<times> PostEngagement"
  assume "a \<in> {a. \<exists>r. engagementRate (snd a) = Num r}"
    and "b \<in> {a. \<exists>r. engagementRate (snd a) = Num r}"
  then obtain x y where "engagementRate (snd a) = Num x" "engagementRate (snd b) = Num y"
    by blast
  then show "rankedBefore a b \<or> rankedBefore b a"
    by (rule rankedBefore_total)
next
  fix a b :: "PostRow \<times> PostEngagement"
  assume "a \<in> {a. \<exists>r. engagementRate (snd a) = Num r}"
    and "b \<in> {a. \<exists>r. engagementRate (snd a) = Num r}"
  then obtain x y where "engagementRate (snd a) = Num x" "engagementRate (snd b) = Num y"
    by blast
  then show "(byEngagementDesc a b \<le> 0) = rankedBefore a b"
    by (rule byEngagementDesc_rankedBefore)
next
  fix a b c :: "PostRow \<times> PostEngagement"
  assume "rankedBefore a b" and "rankedBefore b c"
  then show "rankedBefore a c" by (rule rankedBefore_trans)
qed

lemma take_keeps_the_better:
  assumes s: "sorted_wrt R s" and p: "p \<in> set s" and q: "q \<in> set (take k s)"
    and worse: "\<not> R q p"
  shows "p \<in> set (take k s)"
proof (rule ccontr)
  assume "p \<notin> set (take k s)"
  with p have "p \<in> set (drop k s)"
    by (metis Un_iff append_take_drop_id set_append)
  moreover have "sorted_wrt R (take k s @ drop k s)" using s by simp
  ultimately have "R q p" using q unfolding sorted_wrt_append by blast
  with worse show False by simp
qed

section \<open>The page of popular posts\<close>

text \<open>The example posts on 15 March 2024, with the period \<open>all\<close>.\<close>

lemma epoch_time: "getTime epoch = 0"
  by (simp add: getTime_def epoch_def makeDay_def dayFromYear_def daysBeforeMonth_def
      inLeapYear_def)

lemma march15_time: "getTime march15 = 1710460800000"
  by (simp add: getTime_def march15_def makeDay_def dayFromYear_def daysBeforeMonth_def
      inLeapYear_def)

lemma all_rows_match:
  "matchingPosts march15 threeRows None (Some ''all'') = threeRows"
  "matchingPosts march15 fourRows None (Some ''all'') = fourRows"
  by (simp_all add: matchingPosts_def popularWhere_def inWindow_def startDatePopular_def
      periodOr_def epoch_time march15_time fourRows_def threeRows_def rowA_def rowB_def
      rowC_def rowD_def mkRow_def Let_def)

lemma row_totals:
  "totalEngagements (engagementMetrics rowA) = 1"
  "totalEngagements (engagementMetrics rowB) = 5"
  "totalEngagements (engagementMetrics rowC) = 1"
  "totalEngagements (engagementMetrics rowD) = 9"
  by (simp_all add: engagementMetrics_def rowA_def rowB_def rowC_def rowD_def mkRow_def)

lemma row_rates:
  "engagementRate (engagementMetrics rowA) = Num 10"
  "engagementRate (engagementMetrics rowB) = Num 50"
  "engagementRate (engagementMetrics rowC) = Num (3333 / 100)"
  by (simp_all add: engagementMetrics_def rowA_def rowB_def rowC_def mkRow_def Let_def
      divCounts_def roundTo53_def bitLength.simps divRoundEven_def float64Value_def toFixed2_def)

lemma threeRows_sorted:
  "arraySort byEngagementDesc (postsWithEngagement threeRows)
     = [(rowB, engagementMetrics rowB), (rowC, engagementMetrics rowC),
        (rowA, engagementMetrics rowA)]"
  by (simp add: postsWithEngagement_def threeRows_def arraySort_def byEngagementDesc_def
      row_totals row_rates)

lemma fetched_threeRows:
  "fetchedPosts march15 threeRows None (Some ''all'') 2 = threeRows"
  "fetchedPosts march15 threeRows None (Some ''all'') (- 1) = threeRows"
  "fetchedPosts march15 fourRows None (Some ''all'') 1 = threeRows"
  by (simp_all add: fetchedPosts_def findManyTake_def all_rows_match)
     (simp_all add: fourRows_def threeRows_def)

text \<open>The page, from any rows and any limit.\<close>

lemma popularPostsPage_ranked:
  "sorted_wrt rankedBefore (popularPostsPage limit rows) \<and>
   (0 \<le> limit \<longrightarrow> int (length (popularPostsPage limit rows)) \<le> limit) \<and>
   (\<forall>p \<in> set (postsWithEngagement rows). \<forall>q \<in> set (popularPostsPage limit rows).
      totalEngagements (snd q) < totalEngagements (snd p) \<longrightarrow> p \<in> set (popularPostsPage limit rows))"
proof -
  let ?s = "arraySort byEngagementDesc (postsWithEngagement rows)"
  obtain k where k: "popularPostsPage limit rows = take k ?s"
    using slice0_take [of limit ?s] by (auto simp: popularPostsPage_def)
  have srt: "sorted_wrt rankedBefore ?s" by (rule sorted_sortedPosts)
  have 1: "sorted_wrt rankedBefore (popularPostsPage limit rows)"
    unfolding k using srt by (rule sorted_wrt_take)
  have 2: "0 \<le> limit \<longrightarrow> int (length (popularPostsPage limit rows)) \<le> limit"
    by (simp add: popularPostsPage_def length_slice0)
  have 3: "p \<in> set (popularPostsPage limit rows)"
    if "p \<in> set (postsWithEngagement rows)" "q \<in> set (popularPostsPage limit rows)"
      "totalEngagements (snd q) < totalEngagements (snd p)" for p q
  proof -
    have "p \<in> set ?s" using that(1) by (simp add: set_arraySort)
    moreover have "q \<in> set (take k ?s)" using that(2) by (simp add: k)
    moreover have "\<not> rankedBefore q p" using that(3) by (simp add: rankedBefore_def)
    ultimately show ?thesis unfolding k using srt by (meson take_keeps_the_better)
  qed
  show ?thesis using 1 2 3 by blast
qed

lemma fetchedPosts_positive_limit:
  "0 < limit \<Longrightarrow>
   fetchedPosts now db userId periodQuery limit
     = take (3 * nat limit) (matchingPosts now db userId periodQuery)"
  by (simp add: fetchedPosts_def findManyTake_def nat_mult_distrib mult.commute)

text \<open>
  Claim C7, as amended. The candidates are the rows that the query has fetched: for a
  positive limit the first 3 * limit posts of the window, in the order of the database. For
  every database and every request, the page of popular posts is ordered by descending
  \<open>totalEngagements\<close>, posts of equal \<open>totalEngagements\<close> by descending \<open>engagementRate\<close>;
  for a positive limit it has at most \<open>limit\<close> entries; and every candidate with strictly
  more engagements than a returned post is returned.
\<close>

theorem popularPostsHandler_ranked:
  "sorted_wrt rankedBefore (popularPostsHandler now db userId periodQuery limitQuery) \<and>
   (0 < limitOr10 limitQuery \<longrightarrow>
      int (length (popularPostsHandler now db userId periodQuery limitQuery))
        \<le> limitOr10 limitQuery \<and>
      fetchedPosts now db userId periodQuery (limitOr10 limitQuery)
        = take (3 * nat (limitOr10 limitQuery)) (matchingPosts now db userId periodQuery)) \<and>
   (\<forall>p \<in> set (postsWithEngagement
                 (fetchedPosts now db userId periodQuery (limitOr10 limitQuery))).
    \<forall>q \<in> set (popularPostsHandler now db userId periodQuery limitQuery).
      totalEngagements (snd q) < totalEngagements (snd p) \<longrightarrow>
      p \<in> set (popularPostsHandler now db userId periodQuery limitQuery))"
proof -
  let ?limit = "limitOr10 limitQuery"
  let ?rows = "fetchedPosts now db userId periodQuery ?limit"
  have h: "popularPostsHandler now db userId periodQuery limitQuery = popularPostsPage ?limit ?rows"
    by (simp add: popularPostsHandler_def Let_def)
  show ?thesis
    unfolding h
    using popularPostsPage_ranked [of ?limit ?rows]
      fetchedPosts_positive_limit [of ?limit now db userId periodQuery]
    by auto
qed

text \<open>The three posts and the limit 2: \<open>b\<close> has more engagements than \<open>c\<close>, which is returned.\<close>

theorem popularPostsHandler_witness:
  "0 < limitOr10 (Some 2) \<and>
   int (length (popularPostsHandler march15 threeRows None (Some ''all'') (Some 2)))
     \<le> limitOr10 (Some 2) \<and>
   popularPostsHandler march15 threeRows None (Some ''all'') (Some 2)
     = [(rowB, engagementMetrics rowB), (rowC, engagementMetrics rowC)] \<and>
   totalEngagements (engagementMetrics rowC) < totalEngagements (engagementMetrics rowB) \<and>
   (rowB, engagementMetrics rowB)
     \<in> set (popularPostsHandler march15 threeRows None (Some ''all'') (Some 2))"
proof -
  let ?page = "popularPostsHandler march15 threeRows None (Some ''all'') (Some 2)"
  note ranked = popularPostsHandler_ranked [of march15 threeRows None "Some ''all''" "Some 2"]
  have l: "0 < limitOr10 (Some 2)" by (simp add: limitOr10_def)
  from ranked l have n: "int (length ?page) \<le> limitOr10 (Some 2)"
    by blast
  have v: "?page = [(rowB, engagementMetrics rowB), (rowC, engagementMetrics rowC)]"
    by (simp add: popularPostsHandler_def limitOr10_def fetched_threeRows popularPostsPage_def
        threeRows_sorted slice0_def)
  have p: "(rowB, engagementMetrics rowB)
             \<in> set (postsWithEngagement
                      (fetchedPosts march15 threeRows None (Some ''all'') (limitOr10 (Some 2))))"
  proof -
    have l2: "limitOr10 (Some 2) = 2" by (simp add: limitOr10_def)
    show ?thesis
      unfolding l2 fetched_threeRows by (simp add: postsWithEngagement_def threeRows_def)
  qed
  have q: "(rowC, engagementMetrics rowC) \<in> set ?page"
    unfolding v by simp
  have lt: "totalEngagements (engagementMetrics rowC) < totalEngagements (engagementMetrics rowB)"
    by (simp add: row_totals)
  then have lt': "totalEngagements (snd (rowC, engagementMetrics rowC))
                    < totalEngagements (snd (rowB, engagementMetrics rowB))"
    by simp
  from ranked [THEN conjunct2, THEN conjunct2, rule_format, OF p q lt']
  have m: "(rowB, engagementMetrics rowB) \<in> set ?page" .
  show ?thesis using l n v lt m by blast
qed

text \<open>
  As stated, the claim fails twice. The limit -1 of a query string gives a page of two
  posts, which is more than the limit. And with the limit 1 and four posts in the window,
  the query fetches the first three, so the post \<open>d\<close> with 9 engagements is not returned
  although the post \<open>b\<close> with 5 engagements is.
\<close>

theorem popularPostsHandler_counterexample:
  "limitOr10 (Some (- 1)) = - 1 \<and>
   popularPostsHandler march15 threeRows None (Some ''all'') (Some (- 1))
     = [(rowB, engagementMetrics rowB), (rowC, engagementMetrics rowC)] \<and>
   popularPostsHandler march15 fourRows None (Some ''all'') (Some 1)
     = [(rowB, engagementMetrics rowB)] \<and>
   rowD \<in> set (matchingPosts march15 fourRows None (Some ''all'')) \<and>
   totalEngagements (engagementMetrics rowD) = 9 \<and>
   totalEngagements (engagementMetrics rowB) = 5"
proof -
  have 0: "limitOr10 (Some (- 1)) = - 1" by (simp add: limitOr10_def)
  have 1: "popularPostsHandler march15 threeRows None (Some ''all'') (Some (- 1))
             = [(rowB, engagementMetrics rowB), (rowC, engagementMetrics rowC)]"
    by (simp add: popularPostsHandler_def limitOr10_def fetched_threeRows popularPostsPage_def
        threeRows_sorted slice0_def)
  have 2: "popularPostsHandler march15 fourRows None (Some ''all'') (Some 1)
             = [(rowB, engagementMetrics rowB)]"
    by (simp add: popularPostsHandler_def limitOr10_def fetched_threeRows popularPostsPage_def
        threeRows_sorted slice0_def)
  have 3: "rowD \<in> set (matchingPosts march15 fourRows None (Some ''all''))"
    unfolding all_rows_match by (simp add: fourRows_def)
  show ?thesis using 0 1 2 3 row_totals(2,4) by blast
qed

section \<open>The comparison handler in general\<close>

lemma fold_add_sum_list:
  "fold (\<lambda>post total. total + f post) rows (a::nat) = a + sum_list (map f rows)"
  by (induction rows arbitrary: a) simp_all

lemma sumEngagements_sum_list:
  "sumEngagements rows
     = sum_list (map (\<lambda>p. count_likes p + count_comments p + count_shares p) rows)"
  by (simp add: sumEngagements_def fold_add_sum_list)

lemma sumViews_sum_list: "sumViews rows = sum_list (map count_views rows)"
  by (simp add: sumViews_def fold_add_sum_list)

lemma sum_list_filter_le: "sum_list (map f (filter P xs)) \<le> (sum_list (map f xs) :: nat)"
  by (induction xs) simp_all

lemma userPostsIn_allPostsIn:
  "userPostsIn s e u db = filter (\<lambda>r. row_userId r = u) (allPostsIn s e db)"
  by (simp add: userPostsIn_def allPostsIn_def conj_commute)

lemma rateOf_zero_iff: "rateOf e v = 0 \<longleftrightarrow> v = 0 \<or> e = 0"
  by (simp add: rateOf_def)

lemma user_rate_zero_when_platform_rate_zero:
  assumes "rateOf (sumEngagements (allPostsIn s e db)) (sumViews (allPostsIn s e db)) = 0"
  shows "rateOf (sumEngagements (userPostsIn s e u db)) (sumViews (userPostsIn s e u db)) = 0"
proof -
  have "sumEngagements (userPostsIn s e u db) \<le> sumEngagements (allPostsIn s e db)"
    and "sumViews (userPostsIn s e u db) \<le> sumViews (allPostsIn s e db)"
    by (simp_all add: userPostsIn_allPostsIn sumEngagements_sum_list sumViews_sum_list
        sum_list_filter_le)
  with assms show ?thesis by (auto simp: rateOf_zero_iff)
qed

text \<open>
  Whenever the platform's rate is 0, so is the user's, and the comparison is \<open>NaN\<close>.
\<close>

lemma comparison_NaN_when_platform_rate_zero:
  assumes "getUserEngagementComparison now userTable db userId q = Status200 b"
    and "rateOf (sumEngagements (allPostsIn (startDateComparison (periodOr ''month'' q) now) now db))
                (sumViews (allPostsIn (startDateComparison (periodOr ''month'' q) now) now db)) = 0"
  shows "comparison (platformAverages b) = NaN"
  using assms user_rate_zero_when_platform_rate_zero [OF assms(2), of userId]
  by (auto simp: getUserEngagementComparison_def Let_def divide_def split: option.splits)

lemma findIndex_first:
  "findIndex P xs = Some i \<Longrightarrow> i < length xs \<and> P (xs ! i) \<and> (\<forall>j<i. \<not> P (xs ! j))"
proof (induction xs arbitrary: i)
  case Nil
  then show ?case by simp
next
  case (Cons x xs)
  show ?case
  proof (cases "P x")
    case True
    then show ?thesis using Cons.prems by simp
  next
    case False
    then obtain k where k: "findIndex P xs = Some k" "i = Suc k"
      using Cons.prems by auto
    from Cons.IH [OF k(1)] show ?thesis
      using False k(2) by (auto simp: less_Suc_eq_0_disj)
  qed
qed

lemma allUserEngagementRates_ascending: "sorted (allUserEngagementRates db rows)"
proof -
  have "sorted_wrt (\<le>) (arraySort (\<lambda>a b. a - b)
          (map (\<lambda>(u, e, v). rateOf e v) (userPostsMap db rows)) :: real list)"
    by (rule sorted_arraySort) auto
  then show ?thesis by (simp add: allUserEngagementRates_def)
qed

lemma findIndex_None_iff: "findIndex P xs = None \<longleftrightarrow> (\<forall>x\<in>set xs. \<not> P x)"
  by (induction xs) auto

lemma findIndex_less: "findIndex P xs = Some i \<Longrightarrow> i < length xs"
  by (induction xs arbitrary: i) (auto split: if_splits)

lemma percentileOf_less_100:
  assumes "rates = [] \<or> (\<exists>x\<in>set rates. r \<le> x)"
  shows "percentileOf rates r < 100"
proof (cases "rates = []")
  case True
  then show ?thesis by (simp add: percentileOf_def)
next
  case False
  with assms obtain i where i: "findIndex (\<lambda>rate. rate \<ge> r) rates = Some i"
    using findIndex_None_iff [of "\<lambda>rate. rate \<ge> r" rates] by auto
  then have "i < length rates" by (rule findIndex_less)
  define q where "q = real i / real (length rates)"
  from \<open>i < length rates\<close> have "q < 1" by (auto simp: q_def divide_less_eq)
  then have "q * 100 < 100" by linarith
  moreover have "percentileOf rates r = q * 100"
    unfolding q_def using False i by (simp add: percentileOf_def)
  ultimately show ?thesis by (simp only:)
qed

lemma authorOf_own:
  assumes "distinct (map row_id db)" and "r \<in> set db"
  shows "authorOf db (row_id r) = Some (row_userId r)"
proof -
  have "find (\<lambda>x. row_id x = row_id r) db = Some r"
    using assms
  proof (induction db)
    case Nil
    then show ?case by simp
  next
    case (Cons a db)
    then show ?case by (auto simp: image_iff)
  qed
  then show ?thesis by (simp add: authorOf_def)
qed

lemma map_of_groupStep:
  assumes "authorOf db (row_id a) = Some (row_userId a)"
  shows "map_of (groupStep db a m) =
     (if row_userId a = [] then map_of m
      else (map_of m)(row_userId a \<mapsto>
             (fst (sumsOf m (row_userId a)) + (count_likes a + count_comments a + count_shares a),
              snd (sumsOf m (row_userId a)) + count_views a)))"
  using assms
  by (auto simp: groupStep_def Let_def sumsOf_def update_conv' split: option.splits)

lemma map_of_fold_groupStep:
  assumes "\<forall>r\<in>set rows. authorOf db (row_id r) = Some (row_userId r)" and "u \<noteq> []"
  shows "map_of (fold (groupStep db) rows m) u =
     (if (\<exists>r\<in>set rows. row_userId r = u) \<or> map_of m u \<noteq> None
      then Some (fst (sumsOf m u) + sumEngagements (filter (\<lambda>r. row_userId r = u) rows),
                 snd (sumsOf m u) + sumViews (filter (\<lambda>r. row_userId r = u) rows))
      else None)"
  using assms(1)
proof (induction rows arbitrary: m)
  case Nil
  then show ?case
    by (cases "map_of m u") (auto simp: sumsOf_def sumEngagements_def sumViews_def)
next
  case (Cons a rows)
  have a: "authorOf db (row_id a) = Some (row_userId a)" using Cons.prems by simp
  have ih: "map_of (fold (groupStep db) rows (groupStep db a m)) u =
     (if (\<exists>r\<in>set rows. row_userId r = u) \<or> map_of (groupStep db a m) u \<noteq> None
      then Some (fst (sumsOf (groupStep db a m) u) + sumEngagements (filter (\<lambda>r. row_userId r = u) rows),
                 snd (sumsOf (groupStep db a m) u) + sumViews (filter (\<lambda>r. row_userId r = u) rows))
      else None)"
    using Cons.prems by (intro Cons.IH) simp
  show ?case
  proof (cases "row_userId a = u")
    case True
    have m': "map_of (groupStep db a m) u =
        Some (fst (sumsOf m u) + (count_likes a + count_comments a + count_shares a),
              snd (sumsOf m u) + count_views a)"
      using True assms(2) by (simp add: map_of_groupStep [OF a])
    then have s': "sumsOf (groupStep db a m) u =
        (fst (sumsOf m u) + (count_likes a + count_comments a + count_shares a),
         snd (sumsOf m u) + count_views a)"
      by (simp add: sumsOf_def)
    show ?thesis
      using True by (simp add: ih m' s' sumEngagements_sum_list sumViews_sum_list)
  next
    case False
    have m': "map_of (groupStep db a m) u = map_of m u"
      using False by (simp add: map_of_groupStep [OF a])
    then have s': "sumsOf (groupStep db a m) u = sumsOf m u"
      by (simp add: sumsOf_def)
    show ?thesis
      using False by (simp add: ih m' s')
  qed
qed

text \<open>
  With post ids that are unique, the rates of the authors include the rate of a user who has
  posts in the window, and are all at least 0, the rate of a user who has none: the scan of
  \<open>percentileOf\<close> always finds a position, and the branch that gives 100 is never taken.
\<close>

lemma percentile_top_branch_unreachable:
  assumes ids: "distinct (map row_id db)" and u: "userId \<noteq> []"
  shows "percentileOf (allUserEngagementRates db (allPostsIn s e db))
           (rateOf (sumEngagements (userPostsIn s e userId db)) (sumViews (userPostsIn s e userId db)))
         < 100"
proof -
  let ?all = "allPostsIn s e db"
  let ?mine = "userPostsIn s e userId db"
  let ?rates = "allUserEngagementRates db ?all"
  let ?r = "rateOf (sumEngagements ?mine) (sumViews ?mine)"
  have own: "\<forall>r\<in>set ?all. authorOf db (row_id r) = Some (row_userId r)"
    using ids by (auto simp: allPostsIn_def intro: authorOf_own)
  have "?rates = [] \<or> (\<exists>x\<in>set ?rates. ?r \<le> x)"
  proof (cases "?mine = []")
    case True
    then have "?r = 0" by (simp add: sumEngagements_def sumViews_def rateOf_def)
    moreover have "\<forall>x\<in>set ?rates. 0 \<le> x"
      by (auto simp: allUserEngagementRates_def set_arraySort rateOf_nonneg)
    ultimately show ?thesis by (cases ?rates) auto
  next
    case False
    then have ex: "\<exists>r\<in>set ?all. row_userId r = userId"
      by (auto simp: userPostsIn_allPostsIn filter_empty_conv)
    have "map_of (userPostsMap db ?all) userId = Some (sumEngagements ?mine, sumViews ?mine)"
      using ex by (simp add: userPostsMap_def map_of_fold_groupStep [OF own u] sumsOf_def
          userPostsIn_allPostsIn)
    then have "(userId, sumEngagements ?mine, sumViews ?mine) \<in> set (userPostsMap db ?all)"
      by (rule map_of_SomeD)
    then have "?r \<in> set ?rates"
      by (force simp: allUserEngagementRates_def set_arraySort)
    then show ?thesis by auto
  qed
  then show ?thesis by (rule percentileOf_less_100)
qed

section \<open>The comparison handler at concrete requests\<close>

lemma march15_window:
  "getTime march15 = 1710460800000"
  "getTime (startDateComparison ''month'' march15) = 1707955200000"
  "getTime (startDateComparison ''all'' march15) = 1707955200000"
  by (simp_all add: getTime_def startDateComparison_def march15_def makeDay_def dayFromYear_def
      daysBeforeMonth_def inLeapYear_def)

text \<open>
  Claim C10. The claim says that the period \<open>all\<close> gives a window from the epoch. The
  \<open>switch\<close> of \<open>getUserEngagementComparison\<close> has no case \<open>all\<close> (the ones of
  \<open>getPopularPosts\<close> and \<open>getTrendingTopics\<close> have), so \<open>all\<close> takes the default branch: on
  15 March 2024 the window starts on 15 February 2024, not at time 0.
\<close>

theorem comparison_all_period_window:
  "map_option (\<lambda>b. (getTime (dateFrom b), getTime (dateTo b)))
     (bodyOf (getUserEngagementComparison march15 twoUsers twoAuthors ''u2'' (Some ''all'')))
     = Some (1707955200000, 1710460800000) \<and>
   getTime epoch = 0 \<and>
   startDatePopular (periodOr ''week'' (Some ''all'')) march15 = epoch \<and>
   startDateComparison (periodOr ''month'' (Some ''all'')) now = now\<lparr>monthIndex := monthIndex now - 1\<rparr>"
proof -
  have 1: "getTime epoch = 0"
    by (simp add: getTime_def epoch_def makeDay_def dayFromYear_def daysBeforeMonth_def inLeapYear_def)
  have 2: "startDatePopular (periodOr ''week'' (Some ''all'')) march15 = epoch"
    by (simp add: startDatePopular_def periodOr_def)
  have 3: "startDateComparison (periodOr ''month'' (Some ''all'')) now = now\<lparr>monthIndex := monthIndex now - 1\<rparr>"
    by (simp add: startDateComparison_def periodOr_def)
  have 4: "map_option (\<lambda>b. (getTime (dateFrom b), getTime (dateTo b)))
     (bodyOf (getUserEngagementComparison march15 twoUsers twoAuthors ''u2'' (Some ''all'')))
     = Some (1707955200000, 1710460800000)"
    by (simp add: getUserEngagementComparison_def bodyOf_def twoUsers_def Let_def periodOr_def march15_window)
  show ?thesis using 1 2 3 4 by blast
qed

lemma twoAuthors_window:
  "allPostsIn (startDateComparison ''month'' march15) march15 twoAuthors = twoAuthors"
  by (simp add: allPostsIn_def inWindow_def march15_window twoAuthors_def mkRow_def)

lemma twoAuthors_rates:
  "allUserEngagementRates twoAuthors twoAuthors = [10, 50]"
  by (simp add: allUserEngagementRates_def userPostsMap_def groupStep_def authorOf_def twoAuthors_def
      mkRow_def rateOf_def arraySort_def Let_def)

text \<open>
  Claim C5. The claim says that a user whose rate exceeds every other rate gets the
  percentile 100. The list of rates holds the user's own rate, so the first rate that is at
  least the user's is found, at the last position: of two authors with rates 10 and 50, the
  one with 50 gets (1 / 2) * 100 = 50.
\<close>

theorem top_performer_percentile:
  "allUserEngagementRates twoAuthors twoAuthors = [10, 50] \<and>
   map_option (\<lambda>b. (userRate (userMetrics b), percentileRank (userMetrics b)))
     (bodyOf (getUserEngagementComparison march15 twoUsers twoAuthors ''u2'' None)) = Some (50, 50)"
  by (simp add: getUserEngagementComparison_def bodyOf_def twoUsers_def Let_def periodOr_def
      twoAuthors_window twoAuthors_rates percentileOf_def)
    (simp add: twoAuthors_def mkRow_def sumEngagements_def sumViews_def rateOf_def toFixed2_def
      userPostsIn_def inWindow_def march15_window)

text \<open>
  Claim C6. The claim says that the comparison is 0 when the platform rate is 0. The
  division \<open>userEngagementRate / platformEngagementRate\<close> is not guarded: with no post in
  the window, and with posts that have no views, both rates are 0 and the comparison is
  \<open>NaN\<close>.
\<close>

theorem comparison_unguarded:
  "map_option (\<lambda>b. (platformRate (platformAverages b), comparison (platformAverages b)))
     (bodyOf (getUserEngagementComparison march15 twoUsers [] ''u2'' None)) = Some (0, NaN) \<and>
   map_option (\<lambda>b. (userRate (userMetrics b), platformRate (platformAverages b), comparison (platformAverages b)))
     (bodyOf (getUserEngagementComparison march15 twoUsers unseenPost ''u2'' None)) = Some (0, 0, NaN)"
  by (simp add: getUserEngagementComparison_def bodyOf_def twoUsers_def Let_def periodOr_def
      unseenPost_def mkRow_def userPostsIn_def allPostsIn_def inWindow_def march15_window
      sumEngagements_def sumViews_def rateOf_def toFixed2_def divide_def)

end
